theory Spec2Isabelle
  imports Complex_Main
begin

section \<open>The cone object: resolution triple and loaded flag\<close>

text \<open>
  A \<open>GlGeomCone\<close> (GlGeomCone.h) holds three private \<open>int\<close> fields and the private
  flag \<open>VboEboLoaded\<close>, which starts out \<open>false\<close>. A field holds the value of an \<open>int\<close>; the
  arithmetic the code does on the fields is 32-bit arithmetic, written out below with its
  wrap-around.
\<close>

record cone =
  numSlices :: int
  numStacks :: int
  numRings :: int
  VboEboLoaded :: bool

text \<open>The constructor of GlGeomCone.h, lines 126-131: the three arguments are stored as given.\<close>

definition GlGeomCone :: "int \<Rightarrow> int \<Rightarrow> int \<Rightarrow> cone" where
  "GlGeomCone slices stacks rings =
     \<lparr> numSlices = slices, numStacks = stacks, numRings = rings, VboEboLoaded = False \<rparr>"

text \<open>The default constructor delegates to \<open>GlGeomCone(3, 1, 1)\<close>.\<close>

definition GlGeomCone_default :: cone where
  "GlGeomCone_default = GlGeomCone 3 1 1"

text \<open>
  Modelled from the spec: \<open>ClampRange\<close> of MathMisc.h, which is not among the sources.
  The spec says each argument is clamped into its valid range, the bounds being the
  second and third argument of the call.
\<close>

definition ClampRange :: "int \<Rightarrow> int \<Rightarrow> int \<Rightarrow> int" where
  "ClampRange x lo hi = (if x < lo then lo else if x > hi then hi else x)"

text \<open>
  \<open>Remesh\<close>, lines 31-41 of the implementation file: the early return compares the
  arguments as passed with the stored triple; otherwise the clamped arguments are stored
  and the flag is cleared.
\<close>

definition Remesh :: "cone \<Rightarrow> int \<Rightarrow> int \<Rightarrow> int \<Rightarrow> cone" where
  "Remesh c slices stacks rings =
     (if slices = numSlices c \<and> stacks = numStacks c \<and> rings = numRings c then c
      else c \<lparr> numSlices := ClampRange slices 3 255,
               numStacks := ClampRange stacks 1 255,
               numRings := ClampRange rings 1 255,
               VboEboLoaded := False \<rparr>)"

text \<open>
  \<open>InitializeAttribLocations\<close>, lines 182-190: the call into the render base loads the
  GPU buffers (outside this model; the base class cannot reach the private fields), then
  the flag is set.
\<close>

definition InitializeAttribLocations :: "cone \<Rightarrow> cone" where
  "InitializeAttribLocations c = c \<lparr> VboEboLoaded := True \<rparr>"

text \<open>The states a program can bring a cone into through its public interface.\<close>

inductive reachable :: "cone \<Rightarrow> bool" where
  constructed: "reachable (GlGeomCone slices stacks rings)"
| remeshed: "reachable c \<Longrightarrow> reachable (Remesh c slices stacks rings)"
| loaded: "reachable c \<Longrightarrow> reachable (InitializeAttribLocations c)"

text \<open>The invariant the data model asks for.\<close>

definition resolution_clamped :: "cone \<Rightarrow> bool" where
  "resolution_clamped c =
     (3 \<le> numSlices c \<and> numSlices c \<le> 255 \<and>
      1 \<le> numStacks c \<and> numStacks c \<le> 255 \<and>
      1 \<le> numRings c \<and> numRings c \<le> 255)"

text \<open>The resolutions the mesh generation is meant for.\<close>

definition valid_resolution :: "cone \<Rightarrow> bool" where
  "valid_resolution c = (3 \<le> numSlices c \<and> 1 \<le> numStacks c \<and> 1 \<le> numRings c)"

section \<open>Machine arithmetic\<close>

text \<open>
  An \<open>int\<close> has 32 bits in two's complement and an \<open>unsigned int\<close> counts modulo \<open>2^32\<close>.
  A machine value is kept as the integer it denotes, and every operation of the source is
  followed by the reduction into the range of its type: \<open>int32\<close> for \<open>int\<close> (where C++
  leaves signed overflow undefined, the model takes the wrap-around of the hardware),
  \<open>uint32\<close> for \<open>unsigned int\<close>. The same two functions are the conversions between the
  types. Pointers have 64 bits; the offsets added to them below stay far inside that
  range, so pointer arithmetic is exact.
\<close>

definition uint32 :: "int \<Rightarrow> int" where
  "uint32 x = x mod 4294967296"

definition int32 :: "int \<Rightarrow> int" where
  "int32 x = (x + 2147483648) mod 4294967296 - 2147483648"

text \<open>\<open>a + b\<close>, \<open>a - b\<close> and \<open>a * b\<close> on \<open>int\<close>, and \<open>a * b\<close> on \<open>unsigned int\<close>.\<close>

definition add32 :: "int \<Rightarrow> int \<Rightarrow> int" where
  "add32 a b = int32 (a + b)"

definition sub32 :: "int \<Rightarrow> int \<Rightarrow> int" where
  "sub32 a b = int32 (a - b)"

definition mul32 :: "int \<Rightarrow> int \<Rightarrow> int" where
  "mul32 a b = int32 (a * b)"

definition umul32 :: "int \<Rightarrow> int \<Rightarrow> int" where
  "umul32 a b = uint32 (a * b)"

section \<open>Count queries\<close>

text \<open>GlGeomCone.h, lines 81-90, in the order of the header; each returns an \<open>int\<close>.\<close>

definition GetNumElementsDisk :: "cone \<Rightarrow> int" where
  "GetNumElementsDisk c = mul32 (mul32 3 (sub32 (mul32 2 (numRings c)) 1)) (numSlices c)"

definition GetNumVerticesDisk :: "cone \<Rightarrow> int" where
  "GetNumVerticesDisk c = add32 1 (mul32 (numRings c) (numSlices c))"

definition GetNumElementsSide :: "cone \<Rightarrow> int" where
  "GetNumElementsSide c = mul32 (mul32 3 (sub32 (mul32 2 (numStacks c)) 1)) (numSlices c)"

definition GetNumVerticesSideTexCoords :: "cone \<Rightarrow> int" where
  "GetNumVerticesSideTexCoords c =
     add32 (numSlices c) (mul32 (numStacks c) (add32 (numSlices c) 1))"

definition GetNumVerticesSideNoTexCoords :: "cone \<Rightarrow> int" where
  "GetNumVerticesSideNoTexCoords c = add32 (numSlices c) (mul32 (numStacks c) (numSlices c))"

definition GetNumElements :: "cone \<Rightarrow> int" where
  "GetNumElements c = add32 (GetNumElementsDisk c) (GetNumElementsSide c)"

definition GetNumVerticesTexCoords :: "cone \<Rightarrow> int" where
  "GetNumVerticesTexCoords c = add32 (GetNumVerticesDisk c) (GetNumVerticesSideTexCoords c)"

definition GetNumVerticesNoTexCoords :: "cone \<Rightarrow> int" where
  "GetNumVerticesNoTexCoords c = add32 (GetNumVerticesDisk c) (GetNumVerticesSideNoTexCoords c)"

section \<open>Buffers, floating-point operations and counted loops\<close>

text \<open>
  The generator stores \<open>float\<close>s. No claim below depends on rounding, so the arithmetic is
  a parameter: a record of the operations the code applies, over any carrier \<open>'f\<close>.
  Every theorem holds for every such record, IEEE single precision included; a
  hypothesis on the operations is stated where one is needed. \<open>f_PI2\<close> is the constant
  \<open>(float)PI2\<close> of MathMisc.h, which is not among the sources.
\<close>

record 'f fops =
  f_lit :: "rat \<Rightarrow> 'f"
  f_of_int :: "int \<Rightarrow> 'f"
  f_PI2 :: "'f"
  f_mul :: "'f \<Rightarrow> 'f \<Rightarrow> 'f"
  f_div :: "'f \<Rightarrow> 'f \<Rightarrow> 'f"
  f_sub :: "'f \<Rightarrow> 'f \<Rightarrow> 'f"
  f_neg :: "'f \<Rightarrow> 'f"
  f_cos :: "'f \<Rightarrow> 'f"
  f_sin :: "'f \<Rightarrow> 'f"
  f_sqrt :: "'f \<Rightarrow> 'f"

text \<open>Exact real arithmetic, as one instance of the operations.\<close>

definition real_ops :: "real fops" where
  "real_ops = \<lparr> f_lit = of_rat, f_of_int = of_int, f_PI2 = 2 * pi,
                 f_mul = (*), f_div = (/), f_sub = (-), f_neg = uminus,
                 f_cos = cos, f_sin = sin, f_sqrt = sqrt \<rparr>"

text \<open>
  The layout arguments of a call of \<open>CalcVboAndEbo\<close>: three offsets within a record, which
  are \<open>int\<close> parameters, and the stride. The code compares the offsets with 0 and adds
  them to pointers; it does no \<open>int\<close> arithmetic on them. The stride parameter is an
  \<open>unsigned int\<close>, so the function sees the value of the argument modulo \<open>2^32\<close>: that is
  \<open>stride_arg\<close>.
\<close>

record layout =
  vertPosOffset :: int
  vertNormalOffset :: int
  vertTexCoordsOffset :: int
  stride :: int

definition stride_arg :: "layout \<Rightarrow> int" where
  "stride_arg lay = uint32 (stride lay)"

text \<open>
  A write into the vertex buffer goes through a pointer of the form
  \<open>VBOdataBuffer + p + offset + k\<close>: \<open>p\<close> is what the code has added to \<open>VBOdataBuffer\<close> to
  get the pointer to a vertex record (\<open>basePtrBottom\<close>, \<open>sidePtr\<close>), then comes the offset
  of one of the three attributes, and component \<open>k\<close>. A write is kept as that triple with
  the value stored; \<open>float_index\<close> is the position in the buffer, counted in floats from
  \<open>VBOdataBuffer\<close>.
\<close>

datatype attrib = Position | Normal | TexCoords

type_synonym vkey = "int \<times> attrib \<times> int"

type_synonym 'f vwrite = "vkey \<times> 'f"

fun attrib_offset :: "layout \<Rightarrow> attrib \<Rightarrow> int" where
  "attrib_offset lay Position = vertPosOffset lay"
| "attrib_offset lay Normal = vertNormalOffset lay"
| "attrib_offset lay TexCoords = vertTexCoordsOffset lay"

fun float_index :: "layout \<Rightarrow> vkey \<Rightarrow> int" where
  "float_index lay (p, a, k) = p + attrib_offset lay a + k"

text \<open>\<open>*(q++) = x; *(q++) = y; *q = z;\<close> with \<open>q\<close> at attribute \<open>a\<close> of the record at \<open>p\<close>.\<close>

definition write3 :: "int \<Rightarrow> attrib \<Rightarrow> 'f \<Rightarrow> 'f \<Rightarrow> 'f \<Rightarrow> 'f vwrite list" where
  "write3 p a x y z = [((p, a, 0), x), ((p, a, 1), y), ((p, a, 2), z)]"

definition write2 :: "int \<Rightarrow> attrib \<Rightarrow> 'f \<Rightarrow> 'f \<Rightarrow> 'f vwrite list" where
  "write2 p a x y = [((p, a, 0), x), ((p, a, 1), y)]"

text \<open>
  The buffer after a sequence of writes, starting from a buffer in which nothing has been
  written: a later write to the same float replaces an earlier one.
\<close>

definition store_float :: "layout \<Rightarrow> 'f vwrite \<Rightarrow> (int \<rightharpoonup> 'f) \<Rightarrow> (int \<rightharpoonup> 'f)" where
  "store_float lay w m = m(float_index lay (fst w) \<mapsto> snd w)"

definition vbo_memory :: "layout \<Rightarrow> 'f vwrite list \<Rightarrow> (int \<rightharpoonup> 'f)" where
  "vbo_memory lay ws = fold (store_float lay) ws Map.empty"

text \<open>
  \<open>for (k = i; k < n; k++) body\<close> and \<open>for (k = i; k <= n; k++) body\<close>, for a body that
  leaves \<open>k\<close> alone: the writes of all iterations in order, and the counter after the loop.
  In the first loop the counter stays below \<open>n\<close>, so \<open>k++\<close> cannot overflow. In the second
  it would with \<open>n = INT_MAX\<close>; \<open>CalcVboAndEbo\<close> below sets that case apart before it runs
  such a loop.
\<close>

function for_lt :: "int \<Rightarrow> int \<Rightarrow> (int \<Rightarrow> 'a list) \<Rightarrow> 'a list \<times> int" where
  "for_lt i n body =
     (if i < n then (case for_lt (i + 1) n body of (ws, k) \<Rightarrow> (body i @ ws, k))
      else ([], i))"
  by pat_completeness auto
termination
  by (relation "measure (\<lambda>(i, n, body). nat (n - i))") auto

function for_le :: "int \<Rightarrow> int \<Rightarrow> (int \<Rightarrow> 'a list) \<Rightarrow> 'a list \<times> int" where
  "for_le i n body =
     (if i \<le> n then (case for_le (i + 1) n body of (ws, k) \<Rightarrow> (body i @ ws, k))
      else ([], i))"
  by pat_completeness auto
termination
  by (relation "measure (\<lambda>(i, n, body). nat (n + 1 - i))") auto

section \<open>Vertex buffer generation\<close>

text \<open>
  \<open>SetBaseVert\<close>, lines 157-180: one vertex of the base. Its parameter \<open>stride\<close> is an
  \<open>int\<close>, so the call converts the \<open>unsigned int\<close> of the caller; the record pointer is
  \<open>VBOdataBuffer + stride * (i * numRings + j)\<close> with the product computed in \<open>int\<close>.
\<close>

definition SetBaseVert ::
  "'f fops \<Rightarrow> cone \<Rightarrow> 'f \<Rightarrow> 'f \<Rightarrow> int \<Rightarrow> int \<Rightarrow> layout \<Rightarrow> 'f vwrite list" where
  "SetBaseVert ops c x z i j lay =
     (let basePtrBottom = mul32 (int32 (stride_arg lay)) (add32 (mul32 i (numRings c)) j) in
        write3 basePtrBottom Position x (f_lit ops 0) z
        @ (if vertNormalOffset lay \<ge> 0
           then write3 basePtrBottom Normal (f_lit ops 0) (f_lit ops (- 1)) (f_lit ops 0)
           else [])
        @ (if vertTexCoordsOffset lay \<ge> 0
           then write2 basePtrBottom TexCoords
                  (f_mul ops (f_lit ops (1 / 2)) (f_sub ops (f_lit ops 1) x))
                  (f_mul ops (f_lit ops (1 / 2)) (f_sub ops (f_lit ops 1) z))
           else []))"

text \<open>
  The body of the side loop, lines 74-90, for stack \<open>j\<close> with the pointer \<open>sidePtr\<close> (kept
  as its distance from \<open>VBOdataBuffer\<close>).
\<close>

definition side_vertex ::
  "'f fops \<Rightarrow> cone \<Rightarrow> layout \<Rightarrow> 'f \<Rightarrow> 'f \<Rightarrow> 'f \<Rightarrow> int \<Rightarrow> int \<Rightarrow> 'f vwrite list" where
  "side_vertex ops c lay s cs sCoord j sidePtr =
     (let tCoord = f_div ops (f_of_int ops j) (f_of_int ops (numStacks c));
          slopeFactor = f_sub ops (f_lit ops 1) tCoord
      in write3 sidePtr Position (f_mul ops s slopeFactor) tCoord (f_mul ops cs slopeFactor)
         @ (if vertNormalOffset lay \<ge> 0
            then write3 sidePtr Normal
                   (f_mul ops s (f_sqrt ops (f_lit ops 2)))
                   (f_sqrt ops (f_lit ops 2))
                   (f_mul ops cs (f_sqrt ops (f_lit ops 2)))
            else [])
         @ (if vertTexCoordsOffset lay \<ge> 0
            then write2 sidePtr TexCoords sCoord tCoord
            else []))"

text \<open>The apex vertex of slice \<open>i\<close>, lines 93-111, at the pointer \<open>sidePtr\<close> is left at.\<close>

definition apex_vertex :: "'f fops \<Rightarrow> cone \<Rightarrow> layout \<Rightarrow> int \<Rightarrow> int \<Rightarrow> 'f vwrite list" where
  "apex_vertex ops c lay i sidePtr =
     write3 sidePtr Position (f_lit ops 0) (f_lit ops 1) (f_lit ops 0)
     @ (if vertNormalOffset lay \<ge> 0
        then (let thetaApex = f_div ops (f_mul ops (f_of_int ops (add32 (mul32 2 i) 1)) (f_PI2 ops))
                                (f_of_int ops (mul32 2 (numSlices c)))
              in write3 sidePtr Normal
                   (f_mul ops (f_neg ops (f_sin ops thetaApex)) (f_sqrt ops (f_lit ops 2)))
                   (f_sqrt ops (f_lit ops 2))
                   (f_mul ops (f_neg ops (f_cos ops thetaApex)) (f_sqrt ops (f_lit ops 2))))
        else [])
     @ (if vertTexCoordsOffset lay \<ge> 0
        then write2 sidePtr TexCoords (f_lit ops (1 / 2)) (f_lit ops 1)
        else [])"

text \<open>
  Each write is recorded with the statement that made it: the centre call of line 53,
  the ring call of line 65 for slice \<open>i\<close> and ring \<open>j\<close>, the side loop body for slice \<open>i\<close>
  and stack \<open>j\<close>, the apex block for slice \<open>i\<close>. The labels are not stored in the buffer;
  they let a statement speak of "the side vertices of slice \<open>i\<close>".
\<close>

datatype origin = Center | Ring int int | Side int int | Apex int

definition by_origin :: "origin \<Rightarrow> 'f vwrite list \<Rightarrow> (origin \<times> 'f vwrite) list" where
  "by_origin orig ws = map (Pair orig) ws"

text \<open>
  The side loop, lines 73-91: \<open>for (int j = 0; j < numStacks; j++, sidePtr += stride)\<close>,
  a pointer moved by an \<open>unsigned int\<close>. It returns its writes and the final \<open>sidePtr\<close>,
  which the apex block uses.
\<close>

function side_loop ::
  "'f fops \<Rightarrow> cone \<Rightarrow> layout \<Rightarrow> int \<Rightarrow> 'f \<Rightarrow> 'f \<Rightarrow> 'f \<Rightarrow> int \<Rightarrow> int
    \<Rightarrow> (origin \<times> 'f vwrite) list \<times> int" where
  "side_loop ops c lay i s cs sCoord j sidePtr =
     (if j < numStacks c
      then (case side_loop ops c lay i s cs sCoord (j + 1) (sidePtr + stride_arg lay) of
              (ws, p) \<Rightarrow> (by_origin (Side i j) (side_vertex ops c lay s cs sCoord j sidePtr) @ ws, p))
      else ([], sidePtr))"
  by pat_completeness auto
termination
  by (relation "measure (\<lambda>(ops, c, lay, i, s, cs, sCoord, j, sidePtr). nat (numStacks c - j))") auto

text \<open>The ring loop of slice \<open>i\<close>, lines 61-67, with its guard.\<close>

definition ring_vertices ::
  "'f fops \<Rightarrow> cone \<Rightarrow> layout \<Rightarrow> int \<Rightarrow> 'f \<Rightarrow> 'f \<Rightarrow> (origin \<times> 'f vwrite) list" where
  "ring_vertices ops c lay i s cs =
     (if i < numSlices c
      then fst (for_le 1 (numRings c) (\<lambda>j.
             let radius = f_div ops (f_of_int ops j) (f_of_int ops (numRings c))
             in by_origin (Ring i j)
                  (SetBaseVert ops c (f_mul ops s radius) (f_mul ops cs radius) i j lay)))
      else [])"

text \<open>
  One pass of the slice loop, lines 56-112. In line 69 the \<open>int\<close>
  \<open>GetNumVerticesDisk() + i * (numStacks + 1)\<close> is converted to \<open>unsigned int\<close> and
  multiplied by the stride there; the product is added to the pointer. \<open>i % numSlices\<close>
  is computed for \<open>i\<close> from 0 on and, in every run that \<open>CalcVboAndEbo\<close> below lets
  through, a positive \<open>numSlices\<close>, where \<open>%\<close> and \<open>mod\<close> agree.
\<close>

definition slice_vertices ::
  "'f fops \<Rightarrow> cone \<Rightarrow> layout \<Rightarrow> int \<Rightarrow> (origin \<times> 'f vwrite) list" where
  "slice_vertices ops c lay i =
     (let theta = f_div ops (f_mul ops (f_of_int ops (i mod numSlices c)) (f_PI2 ops))
                    (f_of_int ops (numSlices c));
          cs = f_neg ops (f_cos ops theta);
          s = f_neg ops (f_sin ops theta);
          sidePtr = umul32 (uint32 (add32 (GetNumVerticesDisk c) (mul32 i (add32 (numStacks c) 1))))
                      (stride_arg lay);
          sCoord = f_div ops (f_of_int ops i) (f_of_int ops (numSlices c))
      in ring_vertices ops c lay i s cs
         @ (case side_loop ops c lay i s cs sCoord 0 sidePtr of
              (ws, sidePtr) \<Rightarrow>
                ws @ (if i < numSlices c
                      then by_origin (Apex i) (apex_vertex ops c lay i sidePtr)
                      else [])))"

text \<open>The slice indices the loop of line 55 runs through: \<open>0 .. stopSlices\<close>.\<close>

definition stopSlices :: "cone \<Rightarrow> layout \<Rightarrow> int" where
  "stopSlices c lay =
     (if vertTexCoordsOffset lay \<ge> 0 then numSlices c else sub32 (numSlices c) 1)"

text \<open>The vertex part of \<open>CalcVboAndEbo\<close>, lines 52-113.\<close>

definition vbo_writes :: "'f fops \<Rightarrow> cone \<Rightarrow> layout \<Rightarrow> (origin \<times> 'f vwrite) list" where
  "vbo_writes ops c lay =
     by_origin Center (SetBaseVert ops c (f_lit ops 0) (f_lit ops 0) 0 0 lay)
     @ fst (for_le 0 (stopSlices c lay) (slice_vertices ops c lay))"

section \<open>Index buffer generation\<close>

text \<open>
  The element buffer is written front to back through \<open>*(eboPtr++) = ...\<close>, so the
  entries written are a list and entry \<open>k\<close> of the buffer is its element \<open>k\<close>. The values
  are computed in \<open>int\<close> and converted to \<open>unsigned int\<close> by the assignment.
\<close>

text \<open>Base, lines 118-133, the body for slice \<open>i\<close>.\<close>

definition disk_elements :: "cone \<Rightarrow> int \<Rightarrow> int list" where
  "disk_elements c i =
     (let r = add32 (mul32 i (numRings c)) 1;
          rightR = add32 (mul32 (add32 i 1 mod numSlices c) (numRings c)) 1
      in [uint32 0, uint32 rightR, uint32 r]
         @ fst (for_lt 0 (sub32 (numRings c) 1) (\<lambda>j.
             [uint32 (add32 r j), uint32 (add32 rightR j), uint32 (add32 (add32 rightR j) 1),
              uint32 (add32 r j), uint32 (add32 (add32 rightR j) 1),
              uint32 (add32 (add32 r j) 1)])))"

text \<open>Side, lines 135-153, the body for slice \<open>i\<close>; \<open>j\<close> is read after its loop.\<close>

definition side_elements :: "cone \<Rightarrow> layout \<Rightarrow> int \<Rightarrow> int list" where
  "side_elements c lay i =
     (let r = add32 (mul32 i (add32 (numStacks c) 1)) (GetNumVerticesDisk c);
          ii = (if vertTexCoordsOffset lay \<ge> 0 then add32 i 1 else add32 i 1 mod numSlices c);
          rightR = add32 (mul32 ii (add32 (numStacks c) 1)) (GetNumVerticesDisk c)
      in case for_lt 0 (sub32 (numStacks c) 1) (\<lambda>j.
             [uint32 (add32 rightR j), uint32 (add32 (add32 r j) 1), uint32 (add32 r j),
              uint32 (add32 rightR j), uint32 (add32 (add32 rightR j) 1),
              uint32 (add32 (add32 r j) 1)]) of
           (es, j) \<Rightarrow>
             es @ [uint32 (add32 rightR j), uint32 (add32 (add32 r j) 1), uint32 (add32 r j)])"

definition ebo_entries :: "cone \<Rightarrow> layout \<Rightarrow> int list" where
  "ebo_entries c lay =
     fst (for_lt 0 (numSlices c) (disk_elements c))
     @ fst (for_lt 0 (numSlices c) (side_elements c lay))"

section \<open>CalcVboAndEbo\<close>

text \<open>
  Line 46 asserts \<open>vertPosOffset >= 0 && stride > 0\<close>, on the \<open>unsigned int\<close> stride.
  \<open>i % numSlices\<close> in line 58 divides by zero when the slice loop runs with
  \<open>numSlices = 0\<close>, which happens exactly when texture coordinates are requested
  (\<open>stopSlices = 0\<close>); the constructor allows such a cone. A loop \<open>k <= n\<close> with
  \<open>n = INT_MAX\<close> overflows its counter: that is the slice loop when \<open>stopSlices\<close> is
  \<open>INT_MAX\<close>, and the ring loop, which runs as soon as slice 0 is visited, when \<open>numRings\<close>
  is. The three failures are results of the model.
\<close>

datatype calc_error = AssertionFailed | ModuloByZero | CounterOverflow

definition CalcVboAndEbo ::
  "'f fops \<Rightarrow> cone \<Rightarrow> layout \<Rightarrow> calc_error + (origin \<times> 'f vwrite) list \<times> int list" where
  "CalcVboAndEbo ops c lay =
     (if \<not> (vertPosOffset lay \<ge> 0 \<and> stride_arg lay > 0) then Inl AssertionFailed
      else if numSlices c = 0 \<and> 0 \<le> stopSlices c lay then Inl ModuloByZero
      else if stopSlices c lay = 2147483647
              \<or> (0 \<le> stopSlices c lay \<and> 0 < numSlices c \<and> numRings c = 2147483647)
           then Inl CounterOverflow
      else Inr (vbo_writes ops c lay, ebo_entries c lay))"

text \<open>The vertex count that belongs to a layout: with or without texture coordinates.\<close>

definition vertex_count :: "cone \<Rightarrow> layout \<Rightarrow> int" where
  "vertex_count c lay =
     (if vertTexCoordsOffset lay \<ge> 0 then GetNumVerticesTexCoords c
      else GetNumVerticesNoTexCoords c)"

text \<open>The triangles of an element list for \<open>GL_TRIANGLES\<close>: consecutive triples.\<close>

fun triangles :: "'a list \<Rightarrow> ('a \<times> 'a \<times> 'a) list" where
  "triangles (a # b # c # xs) = (a, b, c) # triangles xs"
| "triangles xs = []"

section \<open>Notions the properties are stated with\<close>

text \<open>The float a write goes to, the statement that made it.\<close>

definition write_key :: "origin \<times> 'f vwrite \<Rightarrow> vkey" where
  "write_key w = fst (snd w)"

text \<open>
  The components of a record that \<open>CalcVboAndEbo\<close> fills under a layout: always the
  position, the normal and the texture coordinates when their offset is not negative.
\<close>

definition enabled_components :: "layout \<Rightarrow> (attrib \<times> int) list" where
  "enabled_components lay =
     [(Position, 0), (Position, 1), (Position, 2)]
     @ (if vertNormalOffset lay \<ge> 0 then [(Normal, 0), (Normal, 1), (Normal, 2)] else [])
     @ (if vertTexCoordsOffset lay \<ge> 0 then [(TexCoords, 0), (TexCoords, 1)] else [])"

definition vertex_keys :: "layout \<Rightarrow> int \<Rightarrow> vkey list" where
  "vertex_keys lay p = map (Pair p) (enabled_components lay)"

text \<open>
  The record pointers written through, in the order of the writes: one entry for every
  write of the first position component, which each vertex block starts with.
  \<open>vertex_origins\<close> keeps the statement that wrote the record as well.
\<close>

definition written_vertices :: "(origin \<times> 'f vwrite) list \<Rightarrow> int list" where
  "written_vertices ws =
     map (\<lambda>w. fst (write_key w)) (filter (\<lambda>w. snd (write_key w) = (Position, 0)) ws)"

definition vertex_origins :: "(origin \<times> 'f vwrite) list \<Rightarrow> (origin \<times> int) list" where
  "vertex_origins ws =
     map (\<lambda>w. (fst w, fst (write_key w))) (filter (\<lambda>w. snd (write_key w) = (Position, 0)) ws)"

fun is_apex :: "origin \<Rightarrow> bool" where
  "is_apex (Apex i) = True"
| "is_apex orig = False"


text \<open>
  A trace is blockwise when it consists of blocks that each fill the enabled components
  of the record at one pointer.
\<close>

definition blockwise :: "layout \<Rightarrow> (origin \<times> 'f vwrite) list \<Rightarrow> bool" where
  "blockwise lay ws = (map write_key ws = concat (map (vertex_keys lay) (written_vertices ws)))"

text \<open>
  Record \<open>v\<close> of a buffer of records of \<open>stride\<close> floats starts at \<open>record_start lay v\<close>.
  The records the code means to write: ring \<open>j\<close> of slice \<open>i\<close> of the base (the centre as
  ring 0 of slice 0), and stack \<open>j\<close> of the side column \<open>i\<close>, whose last stack is the apex.
\<close>

definition record_start :: "layout \<Rightarrow> int \<Rightarrow> int" where
  "record_start lay v = stride_arg lay * v"

definition ring_record :: "cone \<Rightarrow> int \<Rightarrow> int \<Rightarrow> int" where
  "ring_record c i j = i * numRings c + j"

definition side_record :: "cone \<Rightarrow> int \<Rightarrow> int \<Rightarrow> int" where
  "side_record c i j = 1 + numRings c * numSlices c + i * (numStacks c + 1) + j"

text \<open>The records in the order in which the slice loop reaches them.\<close>

definition slice_records :: "cone \<Rightarrow> int \<Rightarrow> int list" where
  "slice_records c i =
     (if i < numSlices c then map (ring_record c i) [1..numRings c] else [])
     @ map (side_record c i) [0..numStacks c - 1]
     @ (if i < numSlices c then [side_record c i (numStacks c)] else [])"

definition vbo_records :: "cone \<Rightarrow> layout \<Rightarrow> int list" where
  "vbo_records c lay = 0 # concat (map (slice_records c) [0..stopSlices c lay])"

text \<open>
  The pointers the code computes for them: \<open>basePtrBottom\<close> of \<open>SetBaseVert\<close>, and
  \<open>sidePtr\<close> of the slice loop after \<open>j\<close> steps.
\<close>

definition ring_pointer :: "cone \<Rightarrow> layout \<Rightarrow> int \<Rightarrow> int \<Rightarrow> int" where
  "ring_pointer c lay i j = mul32 (int32 (stride_arg lay)) (add32 (mul32 i (numRings c)) j)"

definition side_pointer :: "cone \<Rightarrow> layout \<Rightarrow> int \<Rightarrow> int \<Rightarrow> int" where
  "side_pointer c lay i j =
     umul32 (uint32 (add32 (GetNumVerticesDisk c) (mul32 i (add32 (numStacks c) 1))))
       (stride_arg lay)
     + j * stride_arg lay"

text \<open>
  The vertex buffer a caller allocates has \<open>vertex_count * stride\<close> floats. The pointer
  arithmetic of the code is exact when that number is an \<open>int\<close>.
\<close>

definition buffer_fits :: "cone \<Rightarrow> layout \<Rightarrow> bool" where
  "buffer_fits c lay = (0 < stride lay \<and> vertex_count c lay * stride lay \<le> 2147483647)"

text \<open>
  What a caller owes for the layout: every enabled component lies inside the record
  (\<open>attribs_within_stride\<close>), and no two of them share a float (\<open>attribs_disjoint\<close>).
\<close>

definition component_offset :: "layout \<Rightarrow> attrib \<times> int \<Rightarrow> int" where
  "component_offset lay ak = attrib_offset lay (fst ak) + snd ak"

definition attribs_within_stride :: "layout \<Rightarrow> bool" where
  "attribs_within_stride lay =
     list_all (\<lambda>ak. 0 \<le> component_offset lay ak \<and> component_offset lay ak < stride_arg lay)
       (enabled_components lay)"

definition attribs_disjoint :: "layout \<Rightarrow> bool" where
  "attribs_disjoint lay = distinct (map (component_offset lay) (enabled_components lay))"

text \<open>The slice whose column closes the side strip of slice \<open>i\<close>: \<open>ii\<close> of line 137.\<close>

definition right_slice :: "cone \<Rightarrow> layout \<Rightarrow> int \<Rightarrow> int" where
  "right_slice c lay i = (if vertTexCoordsOffset lay \<ge> 0 then i + 1 else (i + 1) mod numSlices c)"

text \<open>
  The triangles of slice \<open>i\<close> in terms of records. Base: the fan triangle at the centre,
  then two triangles for each pair of neighbouring rings, between slice \<open>i\<close> and slice
  \<open>(i + 1) mod numSlices\<close>. Side: two triangles for each pair of neighbouring stacks
  between column \<open>i\<close> and column \<open>right_slice\<close>, then the triangle at the apex of column \<open>i\<close>.
\<close>

definition disk_triangles :: "cone \<Rightarrow> int \<Rightarrow> (int \<times> int \<times> int) list" where
  "disk_triangles c i =
     (0, ring_record c ((i + 1) mod numSlices c) 1, ring_record c i 1)
     # concat (map (\<lambda>j.
         [(ring_record c i (j + 1), ring_record c ((i + 1) mod numSlices c) (j + 1),
           ring_record c ((i + 1) mod numSlices c) (j + 2)),
          (ring_record c i (j + 1), ring_record c ((i + 1) mod numSlices c) (j + 2),
           ring_record c i (j + 2))]) [0..numRings c - 2])"

definition side_triangles :: "cone \<Rightarrow> layout \<Rightarrow> int \<Rightarrow> (int \<times> int \<times> int) list" where
  "side_triangles c lay i =
     concat (map (\<lambda>j.
         [(side_record c (right_slice c lay i) j, side_record c i (j + 1), side_record c i j),
          (side_record c (right_slice c lay i) j, side_record c (right_slice c lay i) (j + 1),
           side_record c i (j + 1))]) [0..numStacks c - 2])
     @ [(side_record c (right_slice c lay i) (numStacks c - 1), side_record c i (numStacks c),
         side_record c i (numStacks c - 1))]"

text \<open>The element list that draws a list of triangles, and the triangles of all slices.\<close>

definition corners :: "('a \<times> 'a \<times> 'a) list \<Rightarrow> 'a list" where
  "corners ts = concat (map (\<lambda>(a, b, c). [a, b, c]) ts)"

definition disk_part :: "cone \<Rightarrow> (int \<times> int \<times> int) list" where
  "disk_part c = concat (map (disk_triangles c) [0..numSlices c - 1])"

definition side_part :: "cone \<Rightarrow> layout \<Rightarrow> (int \<times> int \<times> int) list" where
  "side_part c lay = concat (map (side_triangles c lay) [0..numSlices c - 1])"

text \<open>A triangle with three different corners, all of them vertices \<open>0 .. n - 1\<close>.\<close>

definition triangle_ok :: "int \<Rightarrow> int \<times> int \<times> int \<Rightarrow> bool" where
  "triangle_ok n t =
     (case t of (a, b, c) \<Rightarrow>
        a \<noteq> b \<and> b \<noteq> c \<and> a \<noteq> c \<and> 0 \<le> a \<and> a < n \<and> 0 \<le> b \<and> b < n \<and> 0 \<le> c \<and> c < n)"

text \<open>
  The blocks of the slice loop with the values of its locals filled in: \<open>theta\<close> of line
  58, and the writes of the ring call, the side loop body and the apex block for given
  loop indices.
\<close>

definition slice_theta :: "'f fops \<Rightarrow> cone \<Rightarrow> int \<Rightarrow> 'f" where
  "slice_theta ops c i =
     f_div ops (f_mul ops (f_of_int ops (i mod numSlices c)) (f_PI2 ops))
       (f_of_int ops (numSlices c))"

definition ring_block :: "'f fops \<Rightarrow> cone \<Rightarrow> layout \<Rightarrow> int \<Rightarrow> int \<Rightarrow> 'f vwrite list" where
  "ring_block ops c lay i j =
     SetBaseVert ops c
       (f_mul ops (f_neg ops (f_sin ops (slice_theta ops c i)))
          (f_div ops (f_of_int ops j) (f_of_int ops (numRings c))))
       (f_mul ops (f_neg ops (f_cos ops (slice_theta ops c i)))
          (f_div ops (f_of_int ops j) (f_of_int ops (numRings c))))
       i j lay"

definition side_block :: "'f fops \<Rightarrow> cone \<Rightarrow> layout \<Rightarrow> int \<Rightarrow> int \<Rightarrow> 'f vwrite list" where
  "side_block ops c lay i j =
     side_vertex ops c lay
       (f_neg ops (f_sin ops (slice_theta ops c i)))
       (f_neg ops (f_cos ops (slice_theta ops c i)))
       (f_div ops (f_of_int ops i) (f_of_int ops (numSlices c)))
       j (side_pointer c lay i j)"

definition apex_block :: "'f fops \<Rightarrow> cone \<Rightarrow> layout \<Rightarrow> int \<Rightarrow> 'f vwrite list" where
  "apex_block ops c lay i = apex_vertex ops c lay i (side_pointer c lay i (max 0 (numStacks c)))"

text \<open>Layouts for concrete instances: positions only, and all three attributes interleaved.\<close>

definition layout_position_only :: layout where
  "layout_position_only =
     \<lparr> vertPosOffset = 0, vertNormalOffset = - 1, vertTexCoordsOffset = - 1, stride = 3 \<rparr>"

definition layout_interleaved :: layout where
  "layout_interleaved =
     \<lparr> vertPosOffset = 0, vertNormalOffset = 3, vertTexCoordsOffset = 6, stride = 8 \<rparr>"

text \<open>
  Modelled from the spec: \<open>RenderEBO\<close> of the render base, which is not among the sources.
  Given an element count and a starting element offset it draws that range of the element
  buffer. \<open>RenderBase\<close> and \<open>RenderSide\<close> (lines 213-225) call it with the disk count at
  offset 0, and with the side count at the offset of the disk count.
\<close>

definition drawn_elements :: "int list \<Rightarrow> int \<Rightarrow> int \<Rightarrow> int list" where
  "drawn_elements es count start = take (nat count) (drop (nat start) es)"

definition RenderBase_elements :: "cone \<Rightarrow> int list \<Rightarrow> int list" where
  "RenderBase_elements c es = drawn_elements es (GetNumElementsDisk c) 0"

definition RenderSide_elements :: "cone \<Rightarrow> int list \<Rightarrow> int list" where
  "RenderSide_elements c es = drawn_elements es (GetNumElementsSide c) (GetNumElementsDisk c)"

text \<open>
  Components \<open>ks\<close> of attribute \<open>a\<close> of the record at pointer \<open>p\<close>, read from the buffer after
  the writes.
\<close>

definition read_floats ::
  "layout \<Rightarrow> (origin \<times> 'f vwrite) list \<Rightarrow> int \<Rightarrow> attrib \<Rightarrow> int list \<Rightarrow> 'f option list" where
  "read_floats lay ws p a ks =
     map (\<lambda>k. vbo_memory lay (map snd ws) (float_index lay (p, a, k))) ks"

section \<open>Properties of the machine arithmetic\<close>

lemmas arith32_defs = add32_def sub32_def mul32_def umul32_def

lemma int32_id: "- 2147483648 \<le> x \<Longrightarrow> x \<le> 2147483647 \<Longrightarrow> int32 x = x"
  by (simp add: int32_def)

lemma uint32_id: "0 \<le> x \<Longrightarrow> x \<le> 4294967295 \<Longrightarrow> uint32 x = x"
  by (simp add: uint32_def)

lemma int32_range: "- 2147483648 \<le> int32 x \<and> int32 x \<le> 2147483647"
proof -
  have "0 \<le> (x + 2147483648) mod 4294967296" "(x + 2147483648) mod 4294967296 < 4294967296"
    by simp_all
  then show ?thesis
    unfolding int32_def by linarith
qed

lemma uint32_range: "0 \<le> uint32 x \<and> uint32 x \<le> 4294967295"
proof -
  have "0 \<le> x mod 4294967296" "x mod 4294967296 < 4294967296"
    by simp_all
  then show ?thesis
    unfolding uint32_def by linarith
qed

text \<open>\<open>int32\<close> changes a number by a multiple of \<open>2^32\<close>, so it can be dropped inside \<open>int32\<close>.\<close>

lemma int32_mod: "int32 x mod 4294967296 = x mod 4294967296"
proof -
  have "((x + 2147483648) mod 4294967296 - 2147483648) mod 4294967296
      = (x + 2147483648 - 2147483648) mod 4294967296"
    by (rule mod_diff_left_eq)
  then show ?thesis
    by (simp add: int32_def)
qed

lemma int32_cong: "x mod 4294967296 = y mod 4294967296 \<Longrightarrow> int32 x = int32 y"
proof -
  assume "x mod 4294967296 = y mod 4294967296"
  then have "(x + 2147483648) mod 4294967296 = (y + 2147483648) mod 4294967296"
    by (rule mod_add_cong) (rule refl)
  then show ?thesis
    by (simp add: int32_def)
qed

lemma int32_add_left: "int32 (int32 a + b) = int32 (a + b)"
  by (rule int32_cong) (rule mod_add_cong [OF int32_mod refl])

lemma int32_add_right: "int32 (a + int32 b) = int32 (a + b)"
  by (rule int32_cong) (rule mod_add_cong [OF refl int32_mod])

lemma int32_diff_left: "int32 (int32 a - b) = int32 (a - b)"
  by (rule int32_cong) (rule mod_diff_cong [OF int32_mod refl])

lemma int32_mult_left: "int32 (int32 a * b) = int32 (a * b)"
  by (rule int32_cong) (rule mod_mult_cong [OF int32_mod refl])

lemma int32_mult_right: "int32 (a * int32 b) = int32 (a * b)"
  by (rule int32_cong) (rule mod_mult_cong [OF refl int32_mod])

lemmas int32_inner =
  int32_add_left int32_add_right int32_diff_left int32_mult_left int32_mult_right

lemma prod_bounds:
  fixes a b :: int
  assumes "0 \<le> a" "a \<le> m" "0 \<le> b" "b \<le> n"
  shows "0 \<le> a * b \<and> a * b \<le> m * n"
proof -
  from assms have "a * b \<le> m * n"
    by (intro mult_mono) simp_all
  with assms show ?thesis by simp
qed

section \<open>Properties of the resolution state and of the count queries\<close>

lemmas count_defs =
  GetNumElementsDisk_def GetNumVerticesDisk_def GetNumElementsSide_def
  GetNumVerticesSideTexCoords_def GetNumVerticesSideNoTexCoords_def
  GetNumElements_def GetNumVerticesTexCoords_def GetNumVerticesNoTexCoords_def

lemma ClampRange_bounds: "lo \<le> hi \<Longrightarrow> lo \<le> ClampRange x lo hi \<and> ClampRange x lo hi \<le> hi"
  by (simp add: ClampRange_def)

lemma Remesh_preserves_clamped:
  "resolution_clamped c \<Longrightarrow> resolution_clamped (Remesh c slices stacks rings)"
  by (simp add: Remesh_def resolution_clamped_def ClampRange_def)

lemma Remesh_changed_clamped:
  "\<not> (slices = numSlices c \<and> stacks = numStacks c \<and> rings = numRings c) \<Longrightarrow>
   resolution_clamped (Remesh c slices stacks rings)"
  by (simp add: Remesh_def resolution_clamped_def ClampRange_def)

text \<open>What the count queries return, for every triple: the closed formulas, wrapped.\<close>

lemma counts_wrapped:
  "GetNumElementsDisk c = int32 (3 * (2 * numRings c - 1) * numSlices c)"
  "GetNumVerticesDisk c = int32 (1 + numRings c * numSlices c)"
  "GetNumElementsSide c = int32 (3 * (2 * numStacks c - 1) * numSlices c)"
  "GetNumVerticesSideTexCoords c = int32 (numSlices c + numStacks c * (numSlices c + 1))"
  "GetNumVerticesSideNoTexCoords c = int32 (numSlices c + numStacks c * numSlices c)"
  by (simp_all only: count_defs arith32_defs int32_inner)

text \<open>On a clamped triple nothing wraps.\<close>

lemma clamped_products:
  assumes "resolution_clamped c"
  shows "3 \<le> numRings c * numSlices c" "numRings c * numSlices c \<le> 65025"
    "3 \<le> numStacks c * numSlices c" "numStacks c * numSlices c \<le> 65025"
proof -
  from assms have s: "3 \<le> numSlices c" "numSlices c \<le> 255"
    and k: "1 \<le> numStacks c" "numStacks c \<le> 255"
    and r: "1 \<le> numRings c" "numRings c \<le> 255"
    by (simp_all add: resolution_clamped_def)
  have "1 * 3 \<le> numRings c * numSlices c" "numRings c * numSlices c \<le> 255 * 255"
    "1 * 3 \<le> numStacks c * numSlices c" "numStacks c * numSlices c \<le> 255 * 255"
    using s k r by (intro mult_mono; simp)+
  then show "3 \<le> numRings c * numSlices c" "numRings c * numSlices c \<le> 65025"
    "3 \<le> numStacks c * numSlices c" "numStacks c * numSlices c \<le> 65025"
    by simp_all
qed

lemma counts_clamped:
  assumes "resolution_clamped c"
  shows "GetNumElementsDisk c = 3 * (2 * numRings c - 1) * numSlices c"
    and "GetNumVerticesDisk c = 1 + numRings c * numSlices c"
    and "GetNumElementsSide c = 3 * (2 * numStacks c - 1) * numSlices c"
    and "GetNumVerticesSideTexCoords c = numSlices c + numStacks c * (numSlices c + 1)"
    and "GetNumVerticesSideNoTexCoords c = numSlices c + numStacks c * numSlices c"
    and "GetNumElements c
           = 3 * (2 * numRings c - 1) * numSlices c + 3 * (2 * numStacks c - 1) * numSlices c"
    and "GetNumVerticesTexCoords c
           = 1 + numRings c * numSlices c + (numSlices c + numStacks c * (numSlices c + 1))"
    and "GetNumVerticesNoTexCoords c
           = 1 + numRings c * numSlices c + (numSlices c + numStacks c * numSlices c)"
proof -
  from assms have s: "3 \<le> numSlices c" "numSlices c \<le> 255"
    and k: "1 \<le> numStacks c" "numStacks c \<le> 255"
    and r: "1 \<le> numRings c" "numRings c \<le> 255"
    by (simp_all add: resolution_clamped_def)
  note p = clamped_products [OF assms]
  have ed: "3 * (2 * numRings c - 1) * numSlices c = 6 * (numRings c * numSlices c) - 3 * numSlices c"
    and es: "3 * (2 * numStacks c - 1) * numSlices c = 6 * (numStacks c * numSlices c) - 3 * numSlices c"
    and st: "numStacks c * (numSlices c + 1) = numStacks c * numSlices c + numStacks c"
    by (simp_all add: algebra_simps)
  show a: "GetNumElementsDisk c = 3 * (2 * numRings c - 1) * numSlices c"
    unfolding counts_wrapped ed using p s by (intro int32_id) linarith+
  show b: "GetNumVerticesDisk c = 1 + numRings c * numSlices c"
    unfolding counts_wrapped using p by (intro int32_id) linarith+
  show d: "GetNumElementsSide c = 3 * (2 * numStacks c - 1) * numSlices c"
    unfolding counts_wrapped es using p s by (intro int32_id) linarith+
  show e: "GetNumVerticesSideTexCoords c = numSlices c + numStacks c * (numSlices c + 1)"
    unfolding counts_wrapped st using p s k by (intro int32_id) linarith+
  show f: "GetNumVerticesSideNoTexCoords c = numSlices c + numStacks c * numSlices c"
    unfolding counts_wrapped using p s by (intro int32_id) linarith+
  show "GetNumElements c
      = 3 * (2 * numRings c - 1) * numSlices c + 3 * (2 * numStacks c - 1) * numSlices c"
    unfolding GetNumElements_def add32_def a d ed es using p s by (intro int32_id) linarith+
  show "GetNumVerticesTexCoords c
      = 1 + numRings c * numSlices c + (numSlices c + numStacks c * (numSlices c + 1))"
    unfolding GetNumVerticesTexCoords_def add32_def b e st using p s k by (intro int32_id) linarith+
  show "GetNumVerticesNoTexCoords c
      = 1 + numRings c * numSlices c + (numSlices c + numStacks c * numSlices c)"
    unfolding GetNumVerticesNoTexCoords_def add32_def b f using p s by (intro int32_id) linarith+
qed

text \<open>
  C2 as stated equates the count queries with the closed formulas for every triple. The
  queries compute in \<open>int\<close>: for \<open>GlGeomCone(50000, 50000, 50000)\<close>, which the constructor
  accepts, \<open>1 + numRings * numSlices\<close> is \<open>2500000001\<close> and does not fit, so
  \<open>GetNumVerticesDisk\<close> returns \<open>-1794967295\<close>, and \<open>GetNumElementsDisk\<close> returns
  \<open>2114948112\<close> where the formula gives \<open>14999850000\<close>.
\<close>

theorem C2_counterexample:
  "GetNumVerticesDisk (GlGeomCone 50000 50000 50000) = - 1794967295
   \<and> GetNumVerticesDisk (GlGeomCone 50000 50000 50000)
       \<noteq> 1 + numSlices (GlGeomCone 50000 50000 50000) * numRings (GlGeomCone 50000 50000 50000)
   \<and> GetNumElementsDisk (GlGeomCone 50000 50000 50000) = 2114948112
   \<and> GetNumElementsDisk (GlGeomCone 50000 50000 50000)
       \<noteq> 3 * (numSlices (GlGeomCone 50000 50000 50000)
               * (2 * numRings (GlGeomCone 50000 50000 50000) - 1))"
  by (simp add: count_defs arith32_defs int32_def GlGeomCone_def)

text \<open>
  C2, amended. For every triple the count queries return the closed formulas reduced into
  the range of \<open>int\<close>: the disk has \<open>slices * (2 * rings - 1)\<close> triangles (three elements
  each) and \<open>1 + slices * rings\<close> vertices; the side has \<open>slices * (2 * stacks - 1)\<close>
  triangles and \<open>slices * stacks + slices\<close> vertices without texture coordinates,
  \<open>slices + stacks * (slices + 1)\<close> with them. For a triple in the clamped ranges (slices
  in 3..255, stacks and rings in 1..255) the reduction changes nothing and the queries
  return the formulas themselves.
\<close>

theorem C2_count_formulas:
  "GetNumElementsDisk c = int32 (3 * (numSlices c * (2 * numRings c - 1)))
   \<and> GetNumVerticesDisk c = int32 (1 + numSlices c * numRings c)
   \<and> GetNumElementsSide c = int32 (3 * (numSlices c * (2 * numStacks c - 1)))
   \<and> GetNumVerticesSideNoTexCoords c = int32 (numSlices c * numStacks c + numSlices c)
   \<and> GetNumVerticesSideTexCoords c = int32 (numSlices c + numStacks c * (numSlices c + 1))
   \<and> (resolution_clamped c \<longrightarrow>
         GetNumElementsDisk c = 3 * (numSlices c * (2 * numRings c - 1))
       \<and> GetNumVerticesDisk c = 1 + numSlices c * numRings c
       \<and> GetNumElementsSide c = 3 * (numSlices c * (2 * numStacks c - 1))
       \<and> GetNumVerticesSideNoTexCoords c = numSlices c * numStacks c + numSlices c
       \<and> GetNumVerticesSideTexCoords c = numSlices c + numStacks c * (numSlices c + 1))"
proof -
  have e: "3 * (numSlices c * (2 * numRings c - 1)) = 3 * (2 * numRings c - 1) * numSlices c"
    "1 + numSlices c * numRings c = 1 + numRings c * numSlices c"
    "3 * (numSlices c * (2 * numStacks c - 1)) = 3 * (2 * numStacks c - 1) * numSlices c"
    "numSlices c * numStacks c + numSlices c = numSlices c + numStacks c * numSlices c"
    by (simp_all add: algebra_simps)
  show ?thesis
    unfolding e using counts_wrapped [of c] counts_clamped(1-5) [of c] by simp
qed

theorem C2_count_formulas_witness:
  "resolution_clamped (GlGeomCone 255 255 255)
   \<and> GetNumElementsDisk (GlGeomCone 255 255 255) = 389385
   \<and> GetNumVerticesDisk (GlGeomCone 255 255 255) = 65026
   \<and> GetNumElementsSide (GlGeomCone 255 255 255) = 389385
   \<and> GetNumVerticesSideNoTexCoords (GlGeomCone 255 255 255) = 65280
   \<and> GetNumVerticesSideTexCoords (GlGeomCone 255 255 255) = 65535"
proof -
  have c: "resolution_clamped (GlGeomCone 255 255 255)"
    by (simp add: resolution_clamped_def GlGeomCone_def)
  have n: "numSlices (GlGeomCone 255 255 255) = 255" "numStacks (GlGeomCone 255 255 255) = 255"
    "numRings (GlGeomCone 255 255 255) = 255"
    by (simp_all add: GlGeomCone_def)
  from C2_count_formulas [of "GlGeomCone 255 255 255"] c show ?thesis
    unfolding n by simp
qed

text \<open>
  C4 fails on the code. The constructor stores its arguments unclamped, so
  \<open>GlGeomCone(0, 0, 0)\<close> is a reachable state outside all three ranges; and since
  \<open>Remesh\<close> compares the raw arguments first, \<open>Remesh(0, 0, 0)\<close> on that state returns
  early and leaves it as it is. Only \<open>Remesh\<close> clamps.
\<close>

theorem C4_constructor_stores_unclamped:
  "reachable (GlGeomCone 0 0 0)
   \<and> numSlices (GlGeomCone 0 0 0) = 0
   \<and> numStacks (GlGeomCone 0 0 0) = 0
   \<and> numRings (GlGeomCone 0 0 0) = 0
   \<and> \<not> resolution_clamped (GlGeomCone 0 0 0)
   \<and> Remesh (GlGeomCone 0 0 0) 0 0 0 = GlGeomCone 0 0 0"
proof -
  have "reachable (GlGeomCone 0 0 0)"
    by (rule reachable.constructed)
  moreover have "numSlices (GlGeomCone 0 0 0) = 0 \<and> numStacks (GlGeomCone 0 0 0) = 0
      \<and> numRings (GlGeomCone 0 0 0) = 0 \<and> \<not> resolution_clamped (GlGeomCone 0 0 0)
      \<and> Remesh (GlGeomCone 0 0 0) 0 0 0 = GlGeomCone 0 0 0"
    by (simp add: GlGeomCone_def resolution_clamped_def Remesh_def)
  ultimately show ?thesis by simp
qed

text \<open>
  What the missing clamp leads to: a cone constructed with no slices makes
  \<open>CalcVboAndEbo\<close> divide by zero as soon as texture coordinates are requested.
\<close>

lemma unclamped_cone_modulo_by_zero:
  "CalcVboAndEbo ops (GlGeomCone 0 1 1) layout_interleaved = Inl ModuloByZero"
  by (simp add: CalcVboAndEbo_def GlGeomCone_def layout_interleaved_def stopSlices_def
      stride_arg_def uint32_def)

text \<open>
  C5 as stated compares the clamped triple with the stored one. The code compares the
  arguments as passed: with \<open>(3, 1, 1)\<close> stored and loaded, \<open>Remesh(2, 1, 1)\<close> clamps to the
  stored triple and still clears the flag.
\<close>

theorem C5_counterexample:
  "ClampRange 2 3 255 = numSlices (InitializeAttribLocations (GlGeomCone 3 1 1))
   \<and> ClampRange 1 1 255 = numStacks (InitializeAttribLocations (GlGeomCone 3 1 1))
   \<and> ClampRange 1 1 255 = numRings (InitializeAttribLocations (GlGeomCone 3 1 1))
   \<and> Remesh (InitializeAttribLocations (GlGeomCone 3 1 1)) 2 1 1
       \<noteq> InitializeAttribLocations (GlGeomCone 3 1 1)
   \<and> VboEboLoaded (InitializeAttribLocations (GlGeomCone 3 1 1))
   \<and> \<not> VboEboLoaded (Remesh (InitializeAttribLocations (GlGeomCone 3 1 1)) 2 1 1)"
  by (simp add: ClampRange_def Remesh_def InitializeAttribLocations_def GlGeomCone_def)

text \<open>
  C5, amended. If the arguments as passed equal the stored triple, \<open>Remesh\<close> leaves the
  whole state unchanged; otherwise it stores the clamped triple, clears the loaded flag
  and changes nothing else.
\<close>

theorem C5_Remesh_effect:
  "(if slices = numSlices c \<and> stacks = numStacks c \<and> rings = numRings c
    then Remesh c slices stacks rings = c
    else Remesh c slices stacks rings =
           c \<lparr> numSlices := ClampRange slices 3 255,
               numStacks := ClampRange stacks 1 255,
               numRings := ClampRange rings 1 255,
               VboEboLoaded := False \<rparr>
         \<and> numSlices (Remesh c slices stacks rings) = ClampRange slices 3 255
         \<and> numStacks (Remesh c slices stacks rings) = ClampRange stacks 1 255
         \<and> numRings (Remesh c slices stacks rings) = ClampRange rings 1 255
         \<and> \<not> VboEboLoaded (Remesh c slices stacks rings))"
  by (simp add: Remesh_def)

theorem C5_Remesh_effect_witness:
  "Remesh (InitializeAttribLocations (GlGeomCone 3 1 1)) 3 1 1
     = InitializeAttribLocations (GlGeomCone 3 1 1)
   \<and> numSlices (Remesh (InitializeAttribLocations (GlGeomCone 3 1 1)) 300 0 7) = 255
   \<and> numStacks (Remesh (InitializeAttribLocations (GlGeomCone 3 1 1)) 300 0 7) = 1
   \<and> numRings (Remesh (InitializeAttribLocations (GlGeomCone 3 1 1)) 300 0 7) = 7
   \<and> \<not> VboEboLoaded (Remesh (InitializeAttribLocations (GlGeomCone 3 1 1)) 300 0 7)"
  using C5_Remesh_effect [of 3 "InitializeAttribLocations (GlGeomCone 3 1 1)" 1 1]
    C5_Remesh_effect [of 300 "InitializeAttribLocations (GlGeomCone 3 1 1)" 0 7]
  by (simp add: InitializeAttribLocations_def GlGeomCone_def ClampRange_def)

text \<open>
  C6 as stated covers arguments outside the valid ranges. There the second call does
  invalidate: after \<open>Remesh(2, 1, 1)\<close> the stored triple is \<open>(3, 1, 1)\<close>, the reload sets the
  flag, and the second \<open>Remesh(2, 1, 1)\<close> finds \<open>2 \<noteq> 3\<close> and clears it again.
\<close>

theorem C6_counterexample:
  "\<not> VboEboLoaded
       (Remesh (InitializeAttribLocations (Remesh (GlGeomCone 3 1 1) 2 1 1)) 2 1 1)"
  by (simp add: ClampRange_def Remesh_def InitializeAttribLocations_def GlGeomCone_def)

text \<open>
  C6, amended. After one \<open>Remesh\<close> and the reload, a second \<open>Remesh\<close> with the same
  arguments leaves the loaded flag set exactly when the arguments lie inside the valid
  ranges (slices in 3..255, stacks and rings in 1..255) or equal the triple that was stored
  before the first call; it then changes nothing at all.
\<close>

theorem C6_Remesh_twice:
  "(VboEboLoaded
      (Remesh (InitializeAttribLocations (Remesh c slices stacks rings)) slices stacks rings)
    \<longleftrightarrow>
      (3 \<le> slices \<and> slices \<le> 255 \<and> 1 \<le> stacks \<and> stacks \<le> 255 \<and> 1 \<le> rings \<and> rings \<le> 255)
      \<or> (slices = numSlices c \<and> stacks = numStacks c \<and> rings = numRings c))
   \<and> (VboEboLoaded
      (Remesh (InitializeAttribLocations (Remesh c slices stacks rings)) slices stacks rings)
    \<longleftrightarrow>
      Remesh (InitializeAttribLocations (Remesh c slices stacks rings)) slices stacks rings
        = InitializeAttribLocations (Remesh c slices stacks rings))"
proof (cases "slices = numSlices c \<and> stacks = numStacks c \<and> rings = numRings c")
  case True
  then show ?thesis
    by (simp add: Remesh_def InitializeAttribLocations_def)
next
  case False
  define s1 where "s1 = InitializeAttribLocations (Remesh c slices stacks rings)"
  have r: "Remesh c slices stacks rings =
      c \<lparr> numSlices := ClampRange slices 3 255, numStacks := ClampRange stacks 1 255,
          numRings := ClampRange rings 1 255, VboEboLoaded := False \<rparr>"
    unfolding Remesh_def by (rule if_not_P) (rule False)
  have f: "numSlices s1 = ClampRange slices 3 255" "numStacks s1 = ClampRange stacks 1 255"
    "numRings s1 = ClampRange rings 1 255" "VboEboLoaded s1"
    by (simp_all add: s1_def r InitializeAttribLocations_def)
  have c: "slices = ClampRange slices 3 255 \<longleftrightarrow> 3 \<le> slices \<and> slices \<le> 255"
    "stacks = ClampRange stacks 1 255 \<longleftrightarrow> 1 \<le> stacks \<and> stacks \<le> 255"
    "rings = ClampRange rings 1 255 \<longleftrightarrow> 1 \<le> rings \<and> rings \<le> 255"
    by (auto simp: ClampRange_def)
  have a: "VboEboLoaded (Remesh s1 slices stacks rings)
      \<longleftrightarrow> (3 \<le> slices \<and> slices \<le> 255 \<and> 1 \<le> stacks \<and> stacks \<le> 255 \<and> 1 \<le> rings \<and> rings \<le> 255)"
  proof -
    have "VboEboLoaded (Remesh s1 slices stacks rings)
        \<longleftrightarrow> slices = ClampRange slices 3 255 \<and> stacks = ClampRange stacks 1 255
            \<and> rings = ClampRange rings 1 255"
      by (simp add: Remesh_def f)
    then show ?thesis
      unfolding c by (simp only: conj_assoc)
  qed
  have b: "Remesh s1 slices stacks rings = s1 \<longleftrightarrow> VboEboLoaded (Remesh s1 slices stacks rings)"
  proof
    assume "Remesh s1 slices stacks rings = s1"
    then show "VboEboLoaded (Remesh s1 slices stacks rings)" using f(4) by simp
  next
    assume "VboEboLoaded (Remesh s1 slices stacks rings)"
    then show "Remesh s1 slices stacks rings = s1"
      by (simp add: Remesh_def split: if_splits)
  qed
  from a b False show ?thesis
    unfolding s1_def by blast
qed

theorem C6_Remesh_twice_witness:
  "VboEboLoaded (Remesh (InitializeAttribLocations (Remesh (GlGeomCone 7 1 1) 3 2 4)) 3 2 4)
   \<and> VboEboLoaded (Remesh (InitializeAttribLocations (Remesh (GlGeomCone 0 0 0) 0 0 0)) 0 0 0)
   \<and> \<not> VboEboLoaded (Remesh (InitializeAttribLocations (Remesh (GlGeomCone 7 1 1) 300 0 0)) 300 0 0)"
  using C6_Remesh_twice [of "GlGeomCone 7 1 1" 3 2 4] C6_Remesh_twice [of "GlGeomCone 0 0 0" 0 0 0]
    C6_Remesh_twice [of "GlGeomCone 7 1 1" 300 0 0]
  by (simp add: GlGeomCone_def)

section \<open>Counted loops as list comprehensions\<close>

declare for_lt.simps [simp del] for_le.simps [simp del] side_loop.simps [simp del]

lemma for_lt_eq: "for_lt i n body = (concat (map body [i..n - 1]), max i n)"
proof (induction i n body rule: for_lt.induct)
  case (1 i n body)
  show ?case
  proof (cases "i < n")
    case True
    then have u: "[i..n - 1] = i # [i + 1..n - 1]"
      by (simp add: upto_rec1)
    from True 1 show ?thesis
      by (subst for_lt.simps) (simp add: u)
  next
    case False
    then show ?thesis
      by (subst for_lt.simps) simp
  qed
qed

lemma for_le_eq: "for_le i n body = (concat (map body [i..n]), max i (n + 1))"
proof (induction i n body rule: for_le.induct)
  case (1 i n body)
  show ?case
  proof (cases "i \<le> n")
    case True
    then have u: "[i..n] = i # [i + 1..n]"
      by (simp add: upto_rec1)
    from True 1 show ?thesis
      by (subst for_le.simps) (simp add: u)
  next
    case False
    then show ?thesis
      by (subst for_le.simps) simp
  qed
qed

lemma side_loop_eq:
  "side_loop ops c lay i s cs sCoord j p =
     (concat (map (\<lambda>k. by_origin (Side i k)
                       (side_vertex ops c lay s cs sCoord k (p + (k - j) * stride_arg lay)))
                 [j..numStacks c - 1]),
      p + max 0 (numStacks c - j) * stride_arg lay)"
proof (induction ops c lay i s cs sCoord j p rule: side_loop.induct)
  case (1 ops c lay i s cs sCoord j sidePtr)
  show ?case
  proof (cases "j < numStacks c")
    case True
    then have u: "[j..numStacks c - 1] = j # [j + 1..numStacks c - 1]"
      by (simp add: upto_rec1)
    have m: "(\<lambda>k. by_origin (Side i k)
                 (side_vertex ops c lay s cs sCoord k
                    (sidePtr + stride_arg lay + (k - (j + 1)) * stride_arg lay)))
           = (\<lambda>k. by_origin (Side i k)
                 (side_vertex ops c lay s cs sCoord k (sidePtr + (k - j) * stride_arg lay)))"
      by (rule ext) (simp add: algebra_simps)
    have e: "stride_arg lay + (numStacks c - (j + 1)) * stride_arg lay
        = (numStacks c - j) * stride_arg lay"
      by (simp add: algebra_simps)
    from True 1 show ?thesis
      by (subst side_loop.simps) (simp add: u m e)
  next
    case False
    then show ?thesis
      by (subst side_loop.simps) simp
  qed
qed

section \<open>The vertex records written\<close>

lemma written_vertices_append [simp]:
  "written_vertices (xs @ ys) = written_vertices xs @ written_vertices ys"
  by (simp add: written_vertices_def)

lemma written_vertices_Nil [simp]: "written_vertices [] = []"
  by (simp add: written_vertices_def)

lemma written_vertices_concat:
  "written_vertices (concat xss) = concat (map written_vertices xss)"
  by (induction xss) simp_all

lemma keys_by_origin: "map write_key (by_origin orig ws) = map fst ws"
  by (simp add: by_origin_def write_key_def comp_def)

lemma keys_SetBaseVert:
  "map fst (SetBaseVert ops c x z i j lay) = vertex_keys lay (ring_pointer c lay i j)"
  by (simp add: SetBaseVert_def Let_def write3_def write2_def vertex_keys_def
      enabled_components_def ring_pointer_def)

lemma keys_side_vertex:
  "map fst (side_vertex ops c lay s cs sCoord j p) = vertex_keys lay p"
  by (simp add: side_vertex_def Let_def write3_def write2_def vertex_keys_def enabled_components_def)

lemma keys_apex_vertex:
  "map fst (apex_vertex ops c lay i p) = vertex_keys lay p"
  by (simp add: apex_vertex_def Let_def write3_def write2_def vertex_keys_def enabled_components_def)

text \<open>A block of writes that fills exactly the enabled components of one record.\<close>

lemma written_vertices_block:
  "map write_key ws = vertex_keys lay v \<Longrightarrow> written_vertices ws = [v]"
proof -
  assume a: "map write_key ws = vertex_keys lay v"
  have "written_vertices ws = map fst (filter (\<lambda>k. snd k = (Position, 0)) (map write_key ws))"
    by (simp add: written_vertices_def filter_map comp_def)
  also have "\<dots> = [v]"
    by (simp add: a vertex_keys_def enabled_components_def)
  finally show ?thesis .
qed

lemmas block_keys =
  keys_by_origin keys_SetBaseVert keys_side_vertex keys_apex_vertex

lemma written_vertices_Center:
  "written_vertices (by_origin orig (SetBaseVert ops c x z i j lay)) = [ring_pointer c lay i j]"
  by (rule written_vertices_block [where lay = lay]) (simp add: block_keys)

lemma written_vertices_side:
  "written_vertices (by_origin orig (side_vertex ops c lay s cs sCoord j p)) = [p]"
  by (rule written_vertices_block [where lay = lay]) (simp add: block_keys)

lemma written_vertices_apex:
  "written_vertices (by_origin orig (apex_vertex ops c lay i p)) = [p]"
  by (rule written_vertices_block [where lay = lay]) (simp add: block_keys)

lemma concat_map_singleton: "concat (map (\<lambda>x. [f x]) xs) = map f xs"
  by (induction xs) simp_all

lemma written_vertices_ring:
  "written_vertices (ring_vertices ops c lay i s cs) =
     (if i < numSlices c then map (ring_pointer c lay i) [1..numRings c] else [])"
  by (simp add: ring_vertices_def for_le_eq written_vertices_concat comp_def Let_def
      written_vertices_Center concat_map_singleton)

text \<open>The start of \<open>sidePtr\<close> in the slice loop, and where the side loop leaves it.\<close>

lemma side_pointer_0:
  "umul32 (uint32 (add32 (GetNumVerticesDisk c) (mul32 i (add32 (numStacks c) 1))))
     (stride_arg lay) = side_pointer c lay i 0"
  by (simp add: side_pointer_def)

lemma side_pointer_step:
  "side_pointer c lay i 0 + j * stride_arg lay = side_pointer c lay i j"
  by (simp add: side_pointer_def)

lemma side_loop_slice:
  "side_loop ops c lay i s cs sCoord 0 (side_pointer c lay i 0) =
     (concat (map (\<lambda>k. by_origin (Side i k)
                       (side_vertex ops c lay s cs sCoord k (side_pointer c lay i k)))
                 [0..numStacks c - 1]),
      side_pointer c lay i (max 0 (numStacks c)))"
  by (simp add: side_loop_eq side_pointer_step)

lemma written_vertices_slice:
  "written_vertices (slice_vertices ops c lay i) =
     (if i < numSlices c then map (ring_pointer c lay i) [1..numRings c] else [])
     @ map (side_pointer c lay i) [0..numStacks c - 1]
     @ (if i < numSlices c then [side_pointer c lay i (max 0 (numStacks c))] else [])"
  by (simp add: slice_vertices_def Let_def side_pointer_0 side_loop_slice written_vertices_ring
      written_vertices_concat comp_def written_vertices_side written_vertices_apex
      concat_map_singleton)

lemma blockwise_Nil: "blockwise lay []"
  by (simp add: blockwise_def)

lemma blockwise_append: "blockwise lay xs \<Longrightarrow> blockwise lay ys \<Longrightarrow> blockwise lay (xs @ ys)"
  by (simp add: blockwise_def)

lemma blockwise_concat: "(\<And>xs. xs \<in> set xss \<Longrightarrow> blockwise lay xs) \<Longrightarrow> blockwise lay (concat xss)"
  by (induction xss) (simp_all add: blockwise_Nil blockwise_append)

lemma blockwise_block:
  "map write_key ws = vertex_keys lay v \<Longrightarrow> blockwise lay ws"
  by (simp add: blockwise_def written_vertices_block [where lay = lay])

lemma blockwise_base: "blockwise lay (by_origin orig (SetBaseVert ops c x z i j lay))"
  by (rule blockwise_block [where v = "ring_pointer c lay i j"]) (simp add: block_keys)

lemma blockwise_side: "blockwise lay (by_origin orig (side_vertex ops c lay s cs sCoord j p))"
  by (rule blockwise_block [where v = p]) (simp add: block_keys)

lemma blockwise_apex: "blockwise lay (by_origin orig (apex_vertex ops c lay i p))"
  by (rule blockwise_block [where v = p]) (simp add: block_keys)

lemma blockwise_ring: "blockwise lay (ring_vertices ops c lay i s cs)"
proof (cases "i < numSlices c")
  case True
  then show ?thesis
    unfolding ring_vertices_def for_le_eq
    by (auto simp: Let_def blockwise_base intro!: blockwise_concat)
next
  case False
  then show ?thesis
    by (simp add: ring_vertices_def blockwise_Nil)
qed

lemma blockwise_slice: "blockwise lay (slice_vertices ops c lay i)"
  unfolding slice_vertices_def Let_def side_loop_eq
  by (auto simp: blockwise_side blockwise_ring blockwise_apex blockwise_Nil
      intro!: blockwise_append blockwise_concat)

lemma blockwise_vbo: "blockwise lay (vbo_writes ops c lay)"
  unfolding vbo_writes_def for_le_eq
  by (auto simp: blockwise_base blockwise_slice intro!: blockwise_append blockwise_concat)

lemma written_vertices_vbo_slices:
  "written_vertices (vbo_writes ops c lay) =
     ring_pointer c lay 0 0
     # concat (map (\<lambda>i. written_vertices (slice_vertices ops c lay i)) [0..stopSlices c lay])"
  by (simp add: vbo_writes_def for_le_eq written_vertices_concat comp_def
      written_vertices_Center)

section \<open>The records of the buffer, for a clamped resolution\<close>

lemma grid_bound:
  fixes a b m n :: int
  assumes "0 \<le> a" "a < n" "b < m" "0 \<le> m"
  shows "a * m + b < n * m"
proof -
  have "a * m + b < a * m + m" using assms by simp
  also have "\<dots> = (a + 1) * m" by (simp add: algebra_simps)
  also have "\<dots> \<le> n * m" using assms by (intro mult_right_mono) simp_all
  finally show ?thesis .
qed

lemma grid_decompose:
  fixes w m n :: int
  assumes "0 < m" "0 \<le> w" "w < n * m"
  shows "0 \<le> w div m \<and> w div m < n \<and> 0 \<le> w mod m \<and> w mod m < m \<and> w = (w div m) * m + w mod m"
proof -
  have e: "w div m * m + w mod m = w" by simp
  have r: "0 \<le> w mod m" using assms by simp
  have "w div m < n"
  proof (rule ccontr)
    assume "\<not> w div m < n"
    then have "n \<le> w div m" by simp
    then have "n * m \<le> (w div m) * m" using assms by (intro mult_right_mono) simp_all
    with e r assms show False by linarith
  qed
  then show ?thesis using assms by (simp add: pos_imp_zdiv_nonneg_iff)
qed

lemma clamped_valid: "resolution_clamped c \<Longrightarrow> valid_resolution c"
  by (simp add: resolution_clamped_def valid_resolution_def)

lemma stopSlices_clamped:
  assumes "resolution_clamped c"
  shows "stopSlices c lay
     = (if 0 \<le> vertTexCoordsOffset lay then numSlices c else numSlices c - 1)"
proof -
  from assms have "3 \<le> numSlices c" "numSlices c \<le> 255"
    by (simp_all add: resolution_clamped_def)
  then have "sub32 (numSlices c) 1 = numSlices c - 1"
    unfolding sub32_def by (intro int32_id) linarith+
  then show ?thesis
    by (simp add: stopSlices_def)
qed

lemma vertex_count_eq:
  assumes "resolution_clamped c"
  shows "vertex_count c lay = 1 + numRings c * numSlices c + numSlices c * (numStacks c + 1)
      + (if stopSlices c lay = numSlices c then numStacks c else 0)"
  by (simp add: vertex_count_def stopSlices_clamped [OF assms] counts_clamped [OF assms]
      algebra_simps)

lemma mem_slice_records:
  "v \<in> set (slice_records c i) \<longleftrightarrow>
     (i < numSlices c \<and> (\<exists>j. 1 \<le> j \<and> j \<le> numRings c \<and> v = ring_record c i j))
     \<or> (\<exists>j. 0 \<le> j \<and> j < numStacks c \<and> v = side_record c i j)
     \<or> (i < numSlices c \<and> v = side_record c i (numStacks c))"
proof -
  have a: "v \<in> set (map (ring_record c i) [1..numRings c])
      \<longleftrightarrow> (\<exists>j. 1 \<le> j \<and> j \<le> numRings c \<and> v = ring_record c i j)"
    by (simp only: set_map set_upto image_iff Bex_def atLeastAtMost_iff conj_assoc)
  have "j \<le> numStacks c - 1 \<longleftrightarrow> j < numStacks c" for j by linarith
  then have b: "v \<in> set (map (side_record c i) [0..numStacks c - 1])
      \<longleftrightarrow> (\<exists>j. 0 \<le> j \<and> j < numStacks c \<and> v = side_record c i j)"
    by (simp only: set_map set_upto image_iff Bex_def atLeastAtMost_iff conj_assoc)
  show ?thesis
  proof (cases "i < numSlices c")
    case True
    then show ?thesis
      unfolding slice_records_def
      by (simp only: if_True set_append Un_iff a b list.set insert_iff empty_iff simp_thms)
  next
    case False
    then show ?thesis
      unfolding slice_records_def
      by (simp only: if_False set_append Un_iff a b list.set insert_iff empty_iff simp_thms
          append_Nil append_Nil2)
  qed
qed

lemma mem_vbo_records:
  "v \<in> set (vbo_records c lay) \<longleftrightarrow>
     v = 0 \<or> (\<exists>i. 0 \<le> i \<and> i \<le> stopSlices c lay \<and>
        ((i < numSlices c \<and> (\<exists>j. 1 \<le> j \<and> j \<le> numRings c \<and> v = ring_record c i j))
         \<or> (\<exists>j. 0 \<le> j \<and> j < numStacks c \<and> v = side_record c i j)
         \<or> (i < numSlices c \<and> v = side_record c i (numStacks c))))"
proof -
  have "v \<in> set (vbo_records c lay) \<longleftrightarrow>
      v = 0 \<or> (\<exists>i. 0 \<le> i \<and> i \<le> stopSlices c lay \<and> v \<in> set (slice_records c i))"
    unfolding vbo_records_def
    by (simp only: list.set insert_iff set_concat set_map set_upto UN_iff image_iff Bex_def
        atLeastAtMost_iff conj_assoc) blast
  then show ?thesis
    unfolding mem_slice_records .
qed

lemma vbo_records_ringI:
  "0 \<le> i \<Longrightarrow> i \<le> stopSlices c lay \<Longrightarrow> i < numSlices c \<Longrightarrow> 1 \<le> j \<Longrightarrow> j \<le> numRings c
   \<Longrightarrow> ring_record c i j \<in> set (vbo_records c lay)"
  unfolding mem_vbo_records
  by (intro disjI2 exI [of _ i] conjI disjI1 exI [of _ j]) simp_all

lemma vbo_records_sideI:
  "0 \<le> i \<Longrightarrow> i \<le> stopSlices c lay \<Longrightarrow> 0 \<le> j \<Longrightarrow> j < numStacks c
   \<Longrightarrow> side_record c i j \<in> set (vbo_records c lay)"
  unfolding mem_vbo_records
  by (rule disjI2, rule exI [of _ i], intro conjI, assumption, assumption,
      rule disjI2, rule disjI1, rule exI [of _ j]) simp

lemma vbo_records_apexI:
  "0 \<le> i \<Longrightarrow> i \<le> stopSlices c lay \<Longrightarrow> i < numSlices c
   \<Longrightarrow> side_record c i (numStacks c) \<in> set (vbo_records c lay)"
  unfolding mem_vbo_records
  by (rule disjI2, rule exI [of _ i], intro conjI, assumption, assumption,
      rule disjI2, rule disjI2) simp

lemma vbo_records_cases:
  assumes "v \<in> set (vbo_records c lay)"
  obtains "v = 0"
  | i j where "0 \<le> i" "i \<le> stopSlices c lay" "i < numSlices c" "1 \<le> j" "j \<le> numRings c"
      "v = ring_record c i j"
  | i j where "0 \<le> i" "i \<le> stopSlices c lay" "0 \<le> j" "j < numStacks c"
      "v = side_record c i j"
  | i where "0 \<le> i" "i \<le> stopSlices c lay" "i < numSlices c"
      "v = side_record c i (numStacks c)"
  using assms unfolding mem_vbo_records by (elim disjE exE conjE)

lemma vbo_records_in_range:
  assumes cl: "resolution_clamped c" and v: "v \<in> set (vbo_records c lay)"
  shows "0 \<le> v \<and> v < vertex_count c lay"
proof -
  define S where "S = numSlices c"
  define K where "K = numStacks c"
  define R where "R = numRings c"
  define D where "D = 1 + numRings c * numSlices c"
  define T where "T = stopSlices c lay"
  define N where "N = vertex_count c lay"
  from cl have S: "3 \<le> S" and K: "1 \<le> K" and R: "1 \<le> R"
    by (simp_all add: resolution_clamped_def S_def K_def R_def)
  have D: "D = 1 + S * R"
    by (simp add: D_def S_def R_def algebra_simps)
  have T: "T = S \<or> T = S - 1"
    by (simp add: T_def stopSlices_clamped [OF cl] S_def)
  have N: "N = D + S * (K + 1) + (if T = S then K else 0)"
    unfolding N_def D_def S_def K_def T_def by (rule vertex_count_eq [OF cl])
  have Nlow: "D + S * (K + 1) \<le> N"
    unfolding N using K by simp
  have SR: "0 \<le> S * R" and SK: "0 \<le> S * (K + 1)"
    using S K R by simp_all
  from v show ?thesis
  proof (cases rule: vbo_records_cases)
    case 1
    then show ?thesis using Nlow D SR SK by (fold N_def) linarith
  next
    case (2 i j)
    have "i * R + (j - 1) < S * R"
      using 2 R by (intro grid_bound) (simp_all add: S_def R_def)
    moreover have "0 \<le> i * R" using 2 R by simp
    moreover have "v = i * R + j" using 2 by (simp add: R_def ring_record_def)
    moreover have "1 \<le> j" using 2 by simp
    ultimately show ?thesis using Nlow D SK by (fold N_def) linarith
  next
    case (3 i j)
    have iK: "0 \<le> i * (K + 1)" using 3 K by simp
    have vv: "v = D + i * (K + 1) + j" using 3 by (simp add: D_def K_def side_record_def)
    have j: "0 \<le> j" "j < K" using 3 by (simp_all add: K_def)
    show ?thesis
    proof (cases "i < S")
      case True
      have "i * (K + 1) + j < S * (K + 1)"
        using 3 True K j by (intro grid_bound) simp_all
      then show ?thesis using vv j Nlow D SR iK by (fold N_def) linarith
    next
      case False
      with 3 T have "i = S" "T = S" by (auto simp: T_def)
      then have "N = D + S * (K + 1) + K" "v = D + S * (K + 1) + j"
        using N vv by simp_all
      then show ?thesis using j D SR SK by (fold N_def) linarith
    qed
  next
    case (4 i)
    have iK: "0 \<le> i * (K + 1)" using 4 K by simp
    have "i * (K + 1) + K < S * (K + 1)"
      using 4 K by (intro grid_bound) (simp_all add: S_def)
    moreover have "v = D + i * (K + 1) + K"
      using 4 by (simp add: D_def K_def side_record_def)
    ultimately show ?thesis using Nlow D SR iK K by (fold N_def) linarith
  qed
qed

lemma range_in_vbo_records:
  assumes cl: "resolution_clamped c" and v: "0 \<le> v" "v < vertex_count c lay"
  shows "v \<in> set (vbo_records c lay)"
proof -
  define S where "S = numSlices c"
  define K where "K = numStacks c"
  define R where "R = numRings c"
  define D where "D = 1 + numRings c * numSlices c"
  define T where "T = stopSlices c lay"
  from cl have S: "3 \<le> S" and K: "1 \<le> K" and R: "1 \<le> R"
    by (simp_all add: resolution_clamped_def S_def K_def R_def)
  have D: "D = 1 + S * R"
    by (simp add: D_def S_def R_def algebra_simps)
  have T: "T = S \<or> T = S - 1"
    by (simp add: T_def stopSlices_clamped [OF cl] S_def)
  have N: "vertex_count c lay = D + S * (K + 1) + (if T = S then K else 0)"
    unfolding D_def S_def K_def T_def by (rule vertex_count_eq [OF cl])
  have sr: "side_record c i j = D + i * (K + 1) + j" for i j
    by (simp add: side_record_def D_def K_def)
  have rr: "ring_record c i j = i * R + j" for i j
    by (simp add: ring_record_def R_def)
  consider "v = 0" | "1 \<le> v" "v < D" | "D \<le> v" "v < D + S * (K + 1)" | "D + S * (K + 1) \<le> v"
    using v by linarith
  then show ?thesis
  proof cases
    case 1
    then show ?thesis by (simp add: mem_vbo_records)
  next
    case 2
    define w where "w = v - 1"
    have w: "0 \<le> w" "w < S * R" using 2 D by (simp_all add: w_def)
    have R0: "0 < R" using R by simp
    note g = grid_decompose [OF R0 w]
    have "w div R * R + w mod R = w"
      by (rule div_mult_mod_eq)
    then have e: "v = ring_record c (w div R) (w mod R + 1)"
      unfolding w_def rr by linarith
    have "0 \<le> w div R" "w div R \<le> T" "w div R < S" "1 \<le> w mod R + 1" "w mod R + 1 \<le> R"
      using g T by linarith+
    then have "ring_record c (w div R) (w mod R + 1) \<in> set (vbo_records c lay)"
      unfolding R_def S_def T_def by (rule vbo_records_ringI)
    then show ?thesis using e by simp
  next
    case 3
    define w where "w = v - D"
    have w: "0 \<le> w" "w < S * (K + 1)" using 3 by (simp_all add: w_def)
    have K0: "0 < K + 1" using K by simp
    note g = grid_decompose [OF K0 w]
    have iT: "0 \<le> w div (K + 1)" "w div (K + 1) \<le> T" "w div (K + 1) < S"
      using g T by linarith+
    have "w div (K + 1) * (K + 1) + w mod (K + 1) = w"
      by (rule div_mult_mod_eq)
    then have vv: "v = side_record c (w div (K + 1)) (w mod (K + 1))"
      unfolding w_def sr by linarith
    show ?thesis
    proof (cases "w mod (K + 1) < K")
      case True
      then have "0 \<le> w mod (K + 1)" "w mod (K + 1) < K" using g by linarith+
      with iT have "side_record c (w div (K + 1)) (w mod (K + 1)) \<in> set (vbo_records c lay)"
        unfolding K_def T_def by (intro vbo_records_sideI)
      then show ?thesis using vv by simp
    next
      case False
      with g have "w mod (K + 1) = K" by linarith
      with vv have e: "v = side_record c (w div (K + 1)) (numStacks c)"
        by (simp add: K_def)
      from iT have "side_record c (w div (K + 1)) (numStacks c) \<in> set (vbo_records c lay)"
        unfolding K_def T_def S_def by (intro vbo_records_apexI)
      then show ?thesis using e by simp
    qed
  next
    case 4
    have TS: "T = S"
    proof (rule ccontr)
      assume "T \<noteq> S"
      then have "vertex_count c lay = D + S * (K + 1)" using N by simp
      with 4 v show False by linarith
    qed
    then have NN: "vertex_count c lay = D + S * (K + 1) + K" using N by simp
    define j where "j = v - D - S * (K + 1)"
    have "0 \<le> S" "S \<le> T" "0 \<le> j" "j < K"
      using 4 v NN TS S by (simp_all add: j_def)
    then have "side_record c S j \<in> set (vbo_records c lay)"
      unfolding K_def T_def S_def by (intro vbo_records_sideI)
    moreover have "v = side_record c S j" by (simp add: j_def sr)
    ultimately show ?thesis by simp
  qed
qed

lemma set_vbo_records:
  assumes "resolution_clamped c"
  shows "set (vbo_records c lay) = {0..<vertex_count c lay}"
proof (rule set_eqI)
  fix v
  show "v \<in> set (vbo_records c lay) \<longleftrightarrow> v \<in> {0..<vertex_count c lay}"
    using vbo_records_in_range [OF assms, of v lay] range_in_vbo_records [OF assms, of v lay]
    by (simp only: atLeastLessThan_iff) blast
qed

lemma sum_list_map_const: "(\<And>x. x \<in> set xs \<Longrightarrow> f x = (k::nat)) \<Longrightarrow> sum_list (map f xs) = length xs * k"
  by (induction xs) simp_all

lemma length_slice_records:
  "length (slice_records c i) =
     (if i < numSlices c then nat (numRings c) + nat (numStacks c) + 1 else nat (numStacks c))"
  by (simp add: slice_records_def)

lemma length_vbo_records:
  assumes cl: "resolution_clamped c"
  shows "length (vbo_records c lay) = nat (vertex_count c lay)"
proof -
  define S where "S = numSlices c"
  define K where "K = numStacks c"
  define R where "R = numRings c"
  from cl have S: "3 \<le> S" and K: "1 \<le> K" and R: "1 \<le> R"
    by (simp_all add: resolution_clamped_def S_def K_def R_def)
  let ?len = "\<lambda>i. length (slice_records c i)"
  have full: "sum_list (map ?len [0..S - 1]) = nat S * (nat R + nat K + 1)"
  proof -
    have "sum_list (map ?len [0..S - 1]) = length [0..S - 1] * (nat R + nat K + 1)"
      by (rule sum_list_map_const) (simp add: length_slice_records S_def R_def K_def)
    then show ?thesis by simp
  qed
  have len: "length (vbo_records c lay) = 1 + sum_list (map ?len [0..stopSlices c lay])"
    by (simp add: vbo_records_def length_concat comp_def)
  have cnt: "int (nat S * (nat R + nat K + 1)) = S * R + S * (K + 1)"
    using S K R by (simp add: algebra_simps)
  note vc = vertex_count_eq [OF cl, of lay, folded S_def K_def R_def]
  show ?thesis
  proof (cases "vertTexCoordsOffset lay \<ge> 0")
    case True
    then have T: "stopSlices c lay = S" by (simp add: stopSlices_clamped [OF cl] S_def)
    have u: "[0..S] = [0..S - 1] @ [S]"
      using S by (simp add: upto_rec2)
    have "sum_list (map ?len [0..S]) = nat S * (nat R + nat K + 1) + nat K"
      unfolding u using full by (simp add: length_slice_records S_def K_def)
    then have "int (length (vbo_records c lay)) = 1 + (S * R + S * (K + 1)) + K"
      unfolding len T using cnt K by simp
    also have "\<dots> = vertex_count c lay"
      unfolding vc T by (simp add: algebra_simps)
    finally show ?thesis by simp
  next
    case False
    then have T: "stopSlices c lay = S - 1" by (simp add: stopSlices_clamped [OF cl] S_def)
    have "int (length (vbo_records c lay)) = 1 + (S * R + S * (K + 1))"
      unfolding len T full using cnt by simp
    also have "\<dots> = vertex_count c lay"
      unfolding vc T by (simp add: algebra_simps)
    finally show ?thesis by simp
  qed
qed

lemma distinct_vbo_records:
  assumes "resolution_clamped c"
  shows "distinct (vbo_records c lay)"
proof (rule card_distinct)
  show "card (set (vbo_records c lay)) = length (vbo_records c lay)"
    by (simp add: set_vbo_records [OF assms] length_vbo_records [OF assms])
qed

section \<open>Pointers into a buffer that fits\<close>

lemma vertex_count_pos:
  assumes "resolution_clamped c"
  shows "1 \<le> vertex_count c lay"
  using range_in_vbo_records [OF assms, of 0 lay] vbo_records_in_range [OF assms, of 0 lay]
  by (cases "0 < vertex_count c lay") (simp_all add: vbo_records_def)

lemma record_start_bound:
  assumes cl: "resolution_clamped c" and fits: "buffer_fits c lay"
    and v: "0 \<le> v" "v < vertex_count c lay"
  shows "0 \<le> stride lay * v \<and> stride lay * v \<le> 2147483647"
proof -
  from fits have s: "0 < stride lay" and n: "vertex_count c lay * stride lay \<le> 2147483647"
    by (simp_all add: buffer_fits_def)
  have a: "stride lay * v \<le> stride lay * vertex_count c lay"
    using v s by (intro mult_left_mono) simp_all
  have b: "stride lay * vertex_count c lay \<le> 2147483647"
    using n by (simp add: mult.commute)
  have "0 \<le> stride lay * v"
    using v s by simp
  with a b show ?thesis by linarith
qed

lemma stride_arg_fits:
  assumes cl: "resolution_clamped c" and fits: "buffer_fits c lay"
  shows "stride_arg lay = stride lay" and "int32 (stride lay) = stride lay"
    and "0 < stride lay"
proof -
  from fits show s: "0 < stride lay"
    by (simp add: buffer_fits_def)
  from record_start_bound [OF cl fits, of 1] vertex_count_pos [OF cl, of lay] fits
  have b: "stride lay \<le> 2147483647"
    by (cases "vertex_count c lay = 1") (simp_all add: buffer_fits_def)
  from s b show "stride_arg lay = stride lay"
    unfolding stride_arg_def by (intro uint32_id) linarith+
  from s b show "int32 (stride lay) = stride lay"
    by (intro int32_id) linarith+
qed

lemma record_start_fits:
  assumes "resolution_clamped c" and "buffer_fits c lay"
  shows "record_start lay v = stride lay * v"
  by (simp add: record_start_def stride_arg_fits(1) [OF assms])

lemma ring_pointer_center: "ring_pointer c lay 0 0 = 0"
  by (simp add: ring_pointer_def arith32_defs int32_def)

lemma ring_pointer_exact:
  assumes cl: "resolution_clamped c" and fits: "buffer_fits c lay"
    and i: "0 \<le> i" "i < numSlices c" and j: "1 \<le> j" "j \<le> numRings c"
  shows "ring_pointer c lay i j = record_start lay (ring_record c i j)"
proof -
  from cl have S: "3 \<le> numSlices c" "numSlices c \<le> 255"
    and R: "1 \<le> numRings c" "numRings c \<le> 255"
    by (simp_all add: resolution_clamped_def)
  have "0 \<le> i * numRings c \<and> i * numRings c \<le> 255 * 255"
    using i S R by (intro prod_bounds) simp_all
  then have p: "0 \<le> i * numRings c" "i * numRings c \<le> 65025"
    by simp_all
  have m: "mul32 i (numRings c) = i * numRings c"
    unfolding mul32_def using p by (intro int32_id) linarith+
  have a: "add32 (i * numRings c) j = ring_record c i j"
    unfolding add32_def ring_record_def using p j R by (intro int32_id) linarith+
  have "i \<le> stopSlices c lay"
    using i by (simp add: stopSlices_clamped [OF cl])
  then have "ring_record c i j \<in> set (vbo_records c lay)"
    using i j by (intro vbo_records_ringI)
  from vbo_records_in_range [OF cl this]
  have b: "0 \<le> stride lay * ring_record c i j \<and> stride lay * ring_record c i j \<le> 2147483647"
    by (intro record_start_bound [OF cl fits]) simp_all
  have "mul32 (stride lay) (ring_record c i j) = stride lay * ring_record c i j"
    unfolding mul32_def using b by (intro int32_id) linarith+
  then show ?thesis
    by (simp add: ring_pointer_def m a stride_arg_fits [OF cl fits] record_start_def)
qed

lemma side_pointer_exact:
  assumes cl: "resolution_clamped c" and fits: "buffer_fits c lay"
    and i: "0 \<le> i" "i \<le> numSlices c" and j: "0 \<le> j"
    and v: "side_record c i j < vertex_count c lay"
  shows "side_pointer c lay i j = record_start lay (side_record c i j)"
proof -
  from cl have S: "3 \<le> numSlices c" "numSlices c \<le> 255"
    and K: "1 \<le> numStacks c" "numStacks c \<le> 255"
    by (simp_all add: resolution_clamped_def)
  note P = clamped_products [OF cl]
  have k1: "add32 (numStacks c) 1 = numStacks c + 1"
    unfolding add32_def using K by (intro int32_id) linarith+
  have "0 \<le> i * (numStacks c + 1) \<and> i * (numStacks c + 1) \<le> 255 * 256"
    using i S K by (intro prod_bounds) simp_all
  then have p: "0 \<le> i * (numStacks c + 1)" "i * (numStacks c + 1) \<le> 65280"
    by simp_all
  have m: "mul32 i (numStacks c + 1) = i * (numStacks c + 1)"
    unfolding mul32_def using p by (intro int32_id) linarith+
  have s0: "side_record c i 0 = 1 + numRings c * numSlices c + i * (numStacks c + 1)"
    by (simp add: side_record_def)
  have a: "add32 (1 + numRings c * numSlices c) (i * (numStacks c + 1)) = side_record c i 0"
    unfolding add32_def s0 using p P by (intro int32_id) linarith+
  have r0: "0 \<le> side_record c i 0" "side_record c i 0 < vertex_count c lay"
    using p P j v by (simp_all add: side_record_def)
  have u: "uint32 (side_record c i 0) = side_record c i 0"
    using r0 vertex_count_pos [OF cl, of lay] p P
    by (intro uint32_id) (simp_all add: side_record_def)
  note b = record_start_bound [OF cl fits r0]
  have "umul32 (side_record c i 0) (stride lay) = stride lay * side_record c i 0"
    unfolding umul32_def mult.commute [of "side_record c i 0"] using b
    by (intro uint32_id) linarith+
  then have "side_pointer c lay i j = stride lay * side_record c i 0 + j * stride lay"
    by (simp add: side_pointer_def counts_clamped [OF cl] k1 m a u stride_arg_fits [OF cl fits])
  also have "\<dots> = stride lay * side_record c i j"
    by (simp add: side_record_def algebra_simps)
  finally show ?thesis
    by (simp add: record_start_fits [OF cl fits])
qed

lemma side_pointer_written:
  assumes cl: "resolution_clamped c" and fits: "buffer_fits c lay"
    and i: "0 \<le> i" "i \<le> stopSlices c lay"
    and j: "0 \<le> j" "j < numStacks c \<or> (i < numSlices c \<and> j = numStacks c)"
  shows "side_pointer c lay i j = record_start lay (side_record c i j)"
proof -
  from j(2) i j(1) have "side_record c i j \<in> set (vbo_records c lay)"
    by (auto intro: vbo_records_sideI vbo_records_apexI)
  from vbo_records_in_range [OF cl this] have "side_record c i j < vertex_count c lay"
    by simp
  moreover have "i \<le> numSlices c"
    using i(2) by (simp add: stopSlices_clamped [OF cl] split: if_splits)
  ultimately show ?thesis
    using i(1) j(1) by (intro side_pointer_exact [OF cl fits])
qed

lemma written_vertices_slice_exact:
  assumes cl: "resolution_clamped c" and fits: "buffer_fits c lay"
    and i: "0 \<le> i" "i \<le> stopSlices c lay"
  shows "written_vertices (slice_vertices ops c lay i)
     = map (record_start lay) (slice_records c i)"
proof -
  from cl have K: "1 \<le> numStacks c"
    by (simp add: resolution_clamped_def)
  have r: "map (ring_pointer c lay i) [1..numRings c]
      = map (record_start lay) (map (ring_record c i) [1..numRings c])" if "i < numSlices c"
    using that i by (simp add: ring_pointer_exact [OF cl fits])
  have s: "map (side_pointer c lay i) [0..numStacks c - 1]
      = map (record_start lay) (map (side_record c i) [0..numStacks c - 1])"
    using i by (simp add: side_pointer_written [OF cl fits])
  have a: "side_pointer c lay i (max 0 (numStacks c))
      = record_start lay (side_record c i (numStacks c))" if "i < numSlices c"
    using that i K by (simp add: side_pointer_written [OF cl fits])
  show ?thesis
    unfolding written_vertices_slice slice_records_def using r s a by simp
qed

lemma written_vertices_vbo:
  assumes cl: "resolution_clamped c" and fits: "buffer_fits c lay"
  shows "written_vertices (vbo_writes ops c lay) = map (record_start lay) (vbo_records c lay)"
proof -
  have e: "concat (map (\<lambda>i. written_vertices (slice_vertices ops c lay i)) [0..stopSlices c lay])
      = concat (map (\<lambda>i. map (record_start lay) (slice_records c i)) [0..stopSlices c lay])"
    by (rule arg_cong [where f = concat], rule map_cong)
      (simp_all add: written_vertices_slice_exact [OF cl fits])
  show ?thesis
    unfolding written_vertices_vbo_slices vbo_records_def e
    by (simp add: ring_pointer_center record_start_def map_concat comp_def)
qed

lemma inj_record_start:
  assumes "resolution_clamped c" and "buffer_fits c lay"
  shows "inj (record_start lay)"
  using stride_arg_fits(3) [OF assms]
  by (simp add: inj_on_def record_start_fits [OF assms])

lemma set_written_vertices_vbo:
  assumes "resolution_clamped c" and "buffer_fits c lay"
  shows "set (written_vertices (vbo_writes ops c lay))
     = record_start lay ` {0..<vertex_count c lay}"
  by (simp add: written_vertices_vbo [OF assms] set_vbo_records [OF assms(1)])


lemma distinct_written_vertices_vbo:
  assumes "resolution_clamped c" and "buffer_fits c lay"
  shows "distinct (written_vertices (vbo_writes ops c lay))"
  unfolding written_vertices_vbo [OF assms]
  using distinct_vbo_records [OF assms(1), of lay] inj_record_start [OF assms]
  by (simp add: distinct_map inj_on_def)

text \<open>Keys are distinct when the record pointers are.\<close>

lemma distinct_enabled_components: "distinct (enabled_components lay)"
  by (auto simp: enabled_components_def)

lemma distinct_vertex_keys: "distinct (vertex_keys lay v)"
  unfolding vertex_keys_def
  by (simp add: distinct_map distinct_enabled_components inj_on_def)

lemma fst_vertex_keys: "k \<in> set (vertex_keys lay v) \<Longrightarrow> fst k = v"
  by (auto simp: vertex_keys_def)

lemma distinct_concat_vertex_keys:
  "distinct vs \<Longrightarrow> distinct (concat (map (vertex_keys lay) vs))"
proof (induction vs)
  case Nil
  then show ?case by simp
next
  case (Cons v vs)
  have "set (vertex_keys lay v) \<inter> set (concat (map (vertex_keys lay) vs)) = {}"
  proof (rule ccontr)
    assume "\<not> ?thesis"
    then obtain k where k: "k \<in> set (vertex_keys lay v)" "k \<in> set (concat (map (vertex_keys lay) vs))"
      by blast
    from k(2) obtain u where "u \<in> set vs" "k \<in> set (vertex_keys lay u)" by auto
    with k(1) have "v \<in> set vs" by (auto dest!: fst_vertex_keys)
    with Cons.prems show False by simp
  qed
  with Cons show ?case by (simp add: distinct_vertex_keys)
qed

lemma distinct_keys_vbo:
  assumes "resolution_clamped c" and "buffer_fits c lay"
  shows "distinct (map write_key (vbo_writes ops c lay))"
  using blockwise_vbo [of lay ops c] distinct_written_vertices_vbo [OF assms, of ops]
  by (simp add: blockwise_def distinct_concat_vertex_keys)

lemma set_keys_vbo:
  assumes "resolution_clamped c" and "buffer_fits c lay"
  shows "set (map write_key (vbo_writes ops c lay))
     = record_start lay ` {0..<vertex_count c lay} \<times> set (enabled_components lay)"
proof -
  have "set (map write_key (vbo_writes ops c lay))
      = (\<Union>v\<in>set (written_vertices (vbo_writes ops c lay)). set (vertex_keys lay v))"
    using blockwise_vbo [of lay ops c] by (simp add: blockwise_def)
  also have "\<dots> = record_start lay ` {0..<vertex_count c lay} \<times> set (enabled_components lay)"
    unfolding set_written_vertices_vbo [OF assms] by (auto simp: vertex_keys_def)
  finally show ?thesis .
qed

section \<open>Positions in the vertex buffer\<close>

lemma float_index_component:
  "float_index lay (p, ak) = p + component_offset lay ak"
  by (cases ak) (simp add: component_offset_def)

lemma stride_decompose_unique:
  fixes s v v' o1 o2 :: int
  assumes "s * v + o1 = s * v' + o2" "0 \<le> o1" "o1 < s" "0 \<le> o2" "o2 < s"
  shows "v = v' \<and> o1 = o2"
proof -
  have a: "(s * v + o1) div s = v" and b: "(s * v' + o2) div s = v'"
    using assms(2-5) by simp_all
  have "(s * v + o1) div s = (s * v' + o2) div s"
    using assms(1) by (rule arg_cong)
  then have "v = v'" unfolding a b .
  with assms(1) show ?thesis by simp
qed


lemma float_index_inj:
  assumes fit: "attribs_within_stride lay" and dis: "attribs_disjoint lay"
  shows "inj_on (float_index lay) (range (record_start lay) \<times> set (enabled_components lay))"
proof (rule inj_onI)
  fix x y
  assume x: "x \<in> range (record_start lay) \<times> set (enabled_components lay)"
    and y: "y \<in> range (record_start lay) \<times> set (enabled_components lay)"
    and e: "float_index lay x = float_index lay y"
  from x obtain v ak where xx: "x = (record_start lay v, ak)"
    and ma: "ak \<in> set (enabled_components lay)"
    by auto
  from y obtain v' ak' where yy: "y = (record_start lay v', ak')"
    and mb: "ak' \<in> set (enabled_components lay)"
    by auto
  from ma mb fit have o: "0 \<le> component_offset lay ak" "component_offset lay ak < stride_arg lay"
      "0 \<le> component_offset lay ak'" "component_offset lay ak' < stride_arg lay"
    by (auto simp: attribs_within_stride_def list_all_iff)
  from e have "stride_arg lay * v + component_offset lay ak
      = stride_arg lay * v' + component_offset lay ak'"
    by (simp add: xx yy float_index_component record_start_def)
  from stride_decompose_unique [OF this o]
  have vv: "v = v'" and oo: "component_offset lay ak = component_offset lay ak'" by simp_all
  from dis have "inj_on (component_offset lay) (set (enabled_components lay))"
    by (simp add: attribs_disjoint_def distinct_map)
  with oo ma mb have "ak = ak'" by (auto dest: inj_onD)
  with vv show "x = y" by (simp add: xx yy)
qed

text \<open>The buffer after the writes.\<close>

lemma vbo_memory_fold:
  "fold (store_float lay) ws m0
     = m0 ++ map_of (rev (map (\<lambda>w. (float_index lay (fst w), snd w)) ws))"
proof (induction ws arbitrary: m0)
  case Nil
  then show ?case by simp
next
  case (Cons w ws)
  have "fold (store_float lay) (w # ws) m0 = fold (store_float lay) ws (store_float lay w m0)"
    by simp
  also have "\<dots> = store_float lay w m0
      ++ map_of (rev (map (\<lambda>w. (float_index lay (fst w), snd w)) ws))"
    by (rule Cons.IH)
  also have "store_float lay w m0 = m0(float_index lay (fst w) \<mapsto> snd w)"
    by (rule store_float_def)
  also have "m0(float_index lay (fst w) \<mapsto> snd w)
      ++ map_of (rev (map (\<lambda>w. (float_index lay (fst w), snd w)) ws))
    = m0 ++ map_of (rev (map (\<lambda>w. (float_index lay (fst w), snd w)) (w # ws)))"
    by simp
  finally show ?case .
qed

lemma vbo_memory_map_of:
  "vbo_memory lay ws = map_of (rev (map (\<lambda>w. (float_index lay (fst w), snd w)) ws))"
  by (simp add: vbo_memory_def vbo_memory_fold)


lemma vbo_memory_read:
  assumes d: "distinct (map (\<lambda>w. float_index lay (fst w)) ws)" and w: "(k, x) \<in> set ws"
  shows "vbo_memory lay ws (float_index lay k) = Some x"
proof -
  let ?al = "rev (map (\<lambda>w. (float_index lay (fst w), snd w)) ws)"
  have "distinct (map fst ?al)"
    using d by (simp add: rev_map [symmetric] comp_def)
  moreover have "(float_index lay k, x) \<in> set ?al"
    using w by force
  ultimately show ?thesis
    by (simp add: vbo_memory_map_of)
qed

section \<open>The element buffer\<close>

lemma length_concat_map_const:
  "(\<And>x. x \<in> set xs \<Longrightarrow> length (f x) = k) \<Longrightarrow> length (concat (map f xs)) = length xs * k"
  by (induction xs) simp_all

lemma corners_Nil [simp]: "corners [] = []"
  by (simp add: corners_def)

lemma corners_Cons [simp]: "corners ((a, b, d) # ts) = a # b # d # corners ts"
  by (simp add: corners_def)

lemma corners_append [simp]: "corners (ts @ us) = corners ts @ corners us"
  by (simp add: corners_def)

lemma corners_concat: "corners (concat tss) = concat (map corners tss)"
  by (induction tss) simp_all

lemma triangles_corners [simp]: "triangles (corners ts) = ts"
  by (induction ts) auto

lemma length_corners [simp]: "length (corners ts) = 3 * length ts"
  by (induction ts) auto

lemma set_corners:
  "x \<in> set (corners ts) \<longleftrightarrow> (\<exists>a b d. (a, b, d) \<in> set ts \<and> (x = a \<or> x = b \<or> x = d))"
  by (force simp: corners_def)

lemma ebo_entries_eq:
  "ebo_entries c lay =
     concat (map (disk_elements c) [0..numSlices c - 1])
     @ concat (map (side_elements c lay) [0..numSlices c - 1])"
  by (simp add: ebo_entries_def for_lt_eq)

text \<open>On a clamped resolution the index arithmetic does not wrap.\<close>

lemma ring_record_small:
  assumes cl: "resolution_clamped c" and b: "0 \<le> b" "b \<le> 255" and j: "0 \<le> j" "j \<le> 257"
  shows "0 \<le> ring_record c b j \<and> ring_record c b j \<le> 65282"
proof -
  from cl have R: "1 \<le> numRings c" "numRings c \<le> 255"
    by (simp_all add: resolution_clamped_def)
  have "0 \<le> b * numRings c \<and> b * numRings c \<le> 255 * 255"
    using b R by (intro prod_bounds) simp_all
  with j show ?thesis
    by (simp add: ring_record_def)
qed

lemma side_record_small:
  assumes cl: "resolution_clamped c" and b: "0 \<le> b" "b \<le> 255" and j: "0 \<le> j" "j \<le> 257"
  shows "1 \<le> side_record c b j \<and> side_record c b j \<le> 130563"
proof -
  from cl have K: "1 \<le> numStacks c" "numStacks c \<le> 255"
    by (simp_all add: resolution_clamped_def)
  have "0 \<le> b * (numStacks c + 1) \<and> b * (numStacks c + 1) \<le> 255 * 256"
    using b K by (intro prod_bounds) simp_all
  with j clamped_products(1,2) [OF cl] show ?thesis
    by (simp add: side_record_def)
qed

lemma ring_index_exact:
  assumes cl: "resolution_clamped c" and b: "0 \<le> b" "b \<le> 255" and j: "0 \<le> j" "j \<le> 255"
  shows "add32 (mul32 b (numRings c)) 1 = ring_record c b 1"
    and "add32 (ring_record c b 1) j = ring_record c b (j + 1)"
    and "add32 (ring_record c b (j + 1)) 1 = ring_record c b (j + 2)"
    and "uint32 (ring_record c b (j + 1)) = ring_record c b (j + 1)"
    and "uint32 (ring_record c b (j + 2)) = ring_record c b (j + 2)"
proof -
  note s = ring_record_small [OF cl b]
  have m: "mul32 b (numRings c) = ring_record c b 0"
    unfolding mul32_def ring_record_def using s [of 0]
    by (simp add: ring_record_def) (rule int32_id; linarith)
  have e: "ring_record c b 0 + 1 = ring_record c b 1" "ring_record c b 1 + j = ring_record c b (j + 1)"
    "ring_record c b (j + 1) + 1 = ring_record c b (j + 2)"
    by (simp_all add: ring_record_def)
  show "add32 (mul32 b (numRings c)) 1 = ring_record c b 1"
    unfolding m add32_def e using s [of 1] by (intro int32_id) simp_all
  show "add32 (ring_record c b 1) j = ring_record c b (j + 1)"
    unfolding add32_def e using s [of "j + 1"] j by (intro int32_id) simp_all
  show "add32 (ring_record c b (j + 1)) 1 = ring_record c b (j + 2)"
    unfolding add32_def e using s [of "j + 2"] j by (intro int32_id) simp_all
  show "uint32 (ring_record c b (j + 1)) = ring_record c b (j + 1)"
    using s [of "j + 1"] j by (intro uint32_id) simp_all
  show "uint32 (ring_record c b (j + 2)) = ring_record c b (j + 2)"
    using s [of "j + 2"] j by (intro uint32_id) simp_all
qed

lemma side_index_exact:
  assumes cl: "resolution_clamped c" and b: "0 \<le> b" "b \<le> 255" and j: "0 \<le> j" "j \<le> 255"
  shows "add32 (mul32 b (add32 (numStacks c) 1)) (GetNumVerticesDisk c) = side_record c b 0"
    and "add32 (side_record c b 0) j = side_record c b j"
    and "add32 (side_record c b j) 1 = side_record c b (j + 1)"
    and "uint32 (side_record c b j) = side_record c b j"
    and "uint32 (side_record c b (j + 1)) = side_record c b (j + 1)"
proof -
  from cl have K: "1 \<le> numStacks c" "numStacks c \<le> 255"
    by (simp_all add: resolution_clamped_def)
  note s = side_record_small [OF cl b]
  have k1: "add32 (numStacks c) 1 = numStacks c + 1"
    unfolding add32_def using K by (intro int32_id) linarith+
  have "0 \<le> b * (numStacks c + 1) \<and> b * (numStacks c + 1) \<le> 255 * 256"
    using b K by (intro prod_bounds) simp_all
  then have m: "mul32 b (numStacks c + 1) = b * (numStacks c + 1)"
    unfolding mul32_def by (intro int32_id) simp_all
  have e: "b * (numStacks c + 1) + (1 + numRings c * numSlices c) = side_record c b 0"
    "side_record c b 0 + j = side_record c b j"
    "side_record c b j + 1 = side_record c b (j + 1)"
    by (simp_all add: side_record_def)
  have "add32 (mul32 b (add32 (numStacks c) 1)) (GetNumVerticesDisk c)
      = add32 (b * (numStacks c + 1)) (1 + numRings c * numSlices c)"
    by (simp only: k1 m counts_clamped(2) [OF cl])
  also have "\<dots> = side_record c b 0"
    unfolding add32_def e using s [of 0] by (intro int32_id) simp_all
  finally show "add32 (mul32 b (add32 (numStacks c) 1)) (GetNumVerticesDisk c) = side_record c b 0" .
  show "add32 (side_record c b 0) j = side_record c b j"
    unfolding add32_def e using s [of j] j by (intro int32_id) simp_all
  show "add32 (side_record c b j) 1 = side_record c b (j + 1)"
    unfolding add32_def e using s [of "j + 1"] j by (intro int32_id) simp_all
  show "uint32 (side_record c b j) = side_record c b j"
    using s [of j] j by (intro uint32_id) simp_all
  show "uint32 (side_record c b (j + 1)) = side_record c b (j + 1)"
    using s [of "j + 1"] j by (intro uint32_id) simp_all
qed

lemma mod_slice_range:
  fixes i S :: int
  assumes "3 \<le> S" "0 \<le> i" "i < S"
  shows "0 \<le> (i + 1) mod S \<and> (i + 1) mod S < S \<and> (i + 1) mod S \<noteq> i"
proof (cases "i + 1 < S")
  case True
  then have "(i + 1) mod S = i + 1" using assms by simp
  then show ?thesis using assms True by simp
next
  case False
  then have "i + 1 = S" using assms by simp
  then have "(i + 1) mod S = 0" by simp
  then show ?thesis using assms \<open>i + 1 = S\<close> by simp
qed

lemma right_slice_range:
  assumes cl: "resolution_clamped c" and i: "0 \<le> i" "i < numSlices c"
  shows "0 \<le> right_slice c lay i \<and> right_slice c lay i \<le> stopSlices c lay
       \<and> right_slice c lay i \<noteq> i"
proof -
  from cl have S: "3 \<le> numSlices c"
    by (simp add: resolution_clamped_def)
  from mod_slice_range [OF S i] i show ?thesis
    by (simp add: right_slice_def stopSlices_clamped [OF cl])
qed

lemma add32_slice:
  assumes cl: "resolution_clamped c" and i: "0 \<le> i" "i < numSlices c"
  shows "add32 i 1 = i + 1"
proof -
  from cl have "numSlices c \<le> 255"
    by (simp add: resolution_clamped_def)
  with i show ?thesis
    unfolding add32_def by (intro int32_id) linarith+
qed

lemma sub32_clamped:
  assumes "resolution_clamped c"
  shows "sub32 (numRings c) 1 = numRings c - 1" and "sub32 (numStacks c) 1 = numStacks c - 1"
proof -
  from assms have "1 \<le> numRings c" "numRings c \<le> 255" "1 \<le> numStacks c" "numStacks c \<le> 255"
    by (simp_all add: resolution_clamped_def)
  then show "sub32 (numRings c) 1 = numRings c - 1" "sub32 (numStacks c) 1 = numStacks c - 1"
    unfolding sub32_def by (intro int32_id; linarith)+
qed

lemma corners_disk_triangles:
  "corners (disk_triangles c i) =
     [0, ring_record c ((i + 1) mod numSlices c) 1, ring_record c i 1]
     @ concat (map (\<lambda>j.
         [ring_record c i (j + 1), ring_record c ((i + 1) mod numSlices c) (j + 1),
          ring_record c ((i + 1) mod numSlices c) (j + 2),
          ring_record c i (j + 1), ring_record c ((i + 1) mod numSlices c) (j + 2),
          ring_record c i (j + 2)]) [0..numRings c - 2])"
  by (simp add: disk_triangles_def corners_concat comp_def)

lemma corners_side_triangles:
  "corners (side_triangles c lay i) =
     concat (map (\<lambda>j.
         [side_record c (right_slice c lay i) j, side_record c i (j + 1), side_record c i j,
          side_record c (right_slice c lay i) j, side_record c (right_slice c lay i) (j + 1),
          side_record c i (j + 1)]) [0..numStacks c - 2])
     @ [side_record c (right_slice c lay i) (numStacks c - 1), side_record c i (numStacks c),
        side_record c i (numStacks c - 1)]"
  by (simp add: side_triangles_def corners_concat comp_def)

lemma disk_elements_exact:
  assumes cl: "resolution_clamped c" and i: "0 \<le> i" "i < numSlices c"
  shows "disk_elements c i = corners (disk_triangles c i)"
proof -
  define i' where "i' = (i + 1) mod numSlices c"
  from cl have S: "3 \<le> numSlices c" "numSlices c \<le> 255" and R: "numRings c \<le> 255"
    by (simp_all add: resolution_clamped_def)
  from mod_slice_range [OF S(1) i] S have i': "0 \<le> i'" "i' \<le> 255"
    unfolding i'_def by linarith+
  from i S have ib: "0 \<le> i" "i \<le> 255"
    by simp_all
  note a = ring_index_exact [OF cl ib] and b = ring_index_exact [OF cl i']
  have z: "(0::int) \<le> 0" "(0::int) \<le> 255"
    by simp_all
  have body: "[uint32 (add32 (ring_record c i 1) j), uint32 (add32 (ring_record c i' 1) j),
        uint32 (add32 (add32 (ring_record c i' 1) j) 1),
        uint32 (add32 (ring_record c i 1) j), uint32 (add32 (add32 (ring_record c i' 1) j) 1),
        uint32 (add32 (add32 (ring_record c i 1) j) 1)]
      = [ring_record c i (j + 1), ring_record c i' (j + 1), ring_record c i' (j + 2),
         ring_record c i (j + 1), ring_record c i' (j + 2), ring_record c i (j + 2)]"
    if "j \<in> set [0..numRings c - 2]" for j
  proof -
    from that R have j: "0 \<le> j" "j \<le> 255"
      by simp_all
    show ?thesis
      by (simp only: a(2-5) [OF j] b(2-5) [OF j])
  qed
  have h: "[uint32 0, uint32 (ring_record c i' 1), uint32 (ring_record c i 1)]
      = [0, ring_record c i' 1, ring_record c i 1]"
    using a(4) [OF z] b(4) [OF z] by (simp add: uint32_def)
  have "disk_elements c i =
      [uint32 0, uint32 (ring_record c i' 1), uint32 (ring_record c i 1)]
      @ concat (map (\<lambda>j.
          [uint32 (add32 (ring_record c i 1) j), uint32 (add32 (ring_record c i' 1) j),
           uint32 (add32 (add32 (ring_record c i' 1) j) 1),
           uint32 (add32 (ring_record c i 1) j), uint32 (add32 (add32 (ring_record c i' 1) j) 1),
           uint32 (add32 (add32 (ring_record c i 1) j) 1)]) [0..numRings c - 2])"
    by (simp add: disk_elements_def Let_def for_lt_eq sub32_clamped [OF cl] add32_slice [OF cl i]
        a(1) [OF z] b(1) [OF z] i'_def [symmetric])
  also have "\<dots> = [0, ring_record c i' 1, ring_record c i 1]
      @ concat (map (\<lambda>j.
          [ring_record c i (j + 1), ring_record c i' (j + 1), ring_record c i' (j + 2),
           ring_record c i (j + 1), ring_record c i' (j + 2), ring_record c i (j + 2)])
          [0..numRings c - 2])"
    unfolding h by (rule arg_cong [where f = "\<lambda>xs. _ @ concat xs"], rule map_cong) (simp_all only: body)
  finally show ?thesis
    unfolding corners_disk_triangles i'_def .
qed

lemma side_elements_exact:
  assumes cl: "resolution_clamped c" and i: "0 \<le> i" "i < numSlices c"
  shows "side_elements c lay i = corners (side_triangles c lay i)"
proof -
  define i' where "i' = right_slice c lay i"
  from cl have S: "3 \<le> numSlices c" "numSlices c \<le> 255"
    and K: "1 \<le> numStacks c" "numStacks c \<le> 255"
    by (simp_all add: resolution_clamped_def)
  from right_slice_range [OF cl i, of lay] S have i': "0 \<le> i'" "i' \<le> 255"
    by (simp_all add: i'_def stopSlices_clamped [OF cl] split: if_splits)
  from i S have ib: "0 \<le> i" "i \<le> 255"
    by simp_all
  note a = side_index_exact [OF cl ib] and b = side_index_exact [OF cl i']
  have z: "(0::int) \<le> 0" "(0::int) \<le> 255"
    by simp_all
  have ii: "(if 0 \<le> vertTexCoordsOffset lay then add32 i 1 else add32 i 1 mod numSlices c) = i'"
    by (simp add: i'_def right_slice_def add32_slice [OF cl i])
  have body: "[uint32 (add32 (side_record c i' 0) j), uint32 (add32 (add32 (side_record c i 0) j) 1),
        uint32 (add32 (side_record c i 0) j),
        uint32 (add32 (side_record c i' 0) j), uint32 (add32 (add32 (side_record c i' 0) j) 1),
        uint32 (add32 (add32 (side_record c i 0) j) 1)]
      = [side_record c i' j, side_record c i (j + 1), side_record c i j,
         side_record c i' j, side_record c i' (j + 1), side_record c i (j + 1)]"
    if "0 \<le> j" "j \<le> numStacks c - 1" for j
  proof -
    from that K have j: "0 \<le> j" "j \<le> 255"
      by simp_all
    show ?thesis
      by (simp only: a(2-5) [OF j] b(2-5) [OF j])
  qed
  have mx: "max 0 (numStacks c - 1) = numStacks c - 1"
    using K by simp
  have last: "[uint32 (add32 (side_record c i' 0) (numStacks c - 1)),
        uint32 (add32 (add32 (side_record c i 0) (numStacks c - 1)) 1),
        uint32 (add32 (side_record c i 0) (numStacks c - 1))]
      = [side_record c i' (numStacks c - 1), side_record c i (numStacks c),
         side_record c i (numStacks c - 1)]"
    using body [of "numStacks c - 1"] K by simp
  have "side_elements c lay i =
      concat (map (\<lambda>j.
          [uint32 (add32 (side_record c i' 0) j), uint32 (add32 (add32 (side_record c i 0) j) 1),
           uint32 (add32 (side_record c i 0) j),
           uint32 (add32 (side_record c i' 0) j), uint32 (add32 (add32 (side_record c i' 0) j) 1),
           uint32 (add32 (add32 (side_record c i 0) j) 1)]) [0..numStacks c - 2])
      @ [uint32 (add32 (side_record c i' 0) (numStacks c - 1)),
         uint32 (add32 (add32 (side_record c i 0) (numStacks c - 1)) 1),
         uint32 (add32 (side_record c i 0) (numStacks c - 1))]"
    by (simp add: side_elements_def Let_def for_lt_eq sub32_clamped [OF cl] ii
        a(1) [OF z] b(1) [OF z] mx)
  also have "\<dots> = concat (map (\<lambda>j.
          [side_record c i' j, side_record c i (j + 1), side_record c i j,
           side_record c i' j, side_record c i' (j + 1), side_record c i (j + 1)])
          [0..numStacks c - 2])
      @ [side_record c i' (numStacks c - 1), side_record c i (numStacks c),
         side_record c i (numStacks c - 1)]"
    unfolding last
    by (rule arg_cong [where f = "\<lambda>xs. concat xs @ _"], rule map_cong) (simp_all add: body)
  finally show ?thesis
    unfolding corners_side_triangles i'_def .
qed

lemma ebo_entries_exact:
  assumes cl: "resolution_clamped c"
  shows "ebo_entries c lay = corners (disk_part c) @ corners (side_part c lay)"
proof -
  have d: "map (disk_elements c) [0..numSlices c - 1]
      = map (\<lambda>i. corners (disk_triangles c i)) [0..numSlices c - 1]"
    by (rule map_cong) (simp_all add: disk_elements_exact [OF cl])
  have s: "map (side_elements c lay) [0..numSlices c - 1]
      = map (\<lambda>i. corners (side_triangles c lay i)) [0..numSlices c - 1]"
    by (rule map_cong) (simp_all add: side_elements_exact [OF cl])
  show ?thesis
    unfolding ebo_entries_eq d s disk_part_def side_part_def corners_concat
    by (simp add: comp_def)
qed

lemma triangles_ebo_entries:
  assumes "resolution_clamped c"
  shows "triangles (ebo_entries c lay) = disk_part c @ side_part c lay"
  unfolding ebo_entries_exact [OF assms] corners_append [symmetric] by (rule triangles_corners)

lemma length_disk_triangles: "length (disk_triangles c i) = 1 + 2 * nat (numRings c - 1)"
proof -
  have "length (concat (map (\<lambda>j.
         [(ring_record c i (j + 1), ring_record c ((i + 1) mod numSlices c) (j + 1),
           ring_record c ((i + 1) mod numSlices c) (j + 2)),
          (ring_record c i (j + 1), ring_record c ((i + 1) mod numSlices c) (j + 2),
           ring_record c i (j + 2))]) [0..numRings c - 2])) = length [0..numRings c - 2] * 2"
    by (rule length_concat_map_const) simp
  then show ?thesis
    unfolding disk_triangles_def by (simp add: nat_diff_distrib')
qed

lemma length_side_triangles: "length (side_triangles c lay i) = 1 + 2 * nat (numStacks c - 1)"
proof -
  have "length (concat (map (\<lambda>j.
         [(side_record c (right_slice c lay i) j, side_record c i (j + 1), side_record c i j),
          (side_record c (right_slice c lay i) j, side_record c (right_slice c lay i) (j + 1),
           side_record c i (j + 1))]) [0..numStacks c - 2])) = length [0..numStacks c - 2] * 2"
    by (rule length_concat_map_const) simp
  then show ?thesis
    unfolding side_triangles_def by (simp add: nat_diff_distrib')
qed

lemma length_disk_part:
  assumes cl: "resolution_clamped c"
  shows "length (corners (disk_part c)) = nat (GetNumElementsDisk c)"
proof -
  from cl have S: "3 \<le> numSlices c" and R: "1 \<le> numRings c"
    by (simp_all add: resolution_clamped_def)
  have "length (disk_part c) = length [0..numSlices c - 1] * (1 + 2 * nat (numRings c - 1))"
    unfolding disk_part_def by (rule length_concat_map_const) (rule length_disk_triangles)
  then have "length (corners (disk_part c)) = 3 * (nat (numSlices c) * (1 + 2 * nat (numRings c - 1)))"
    by simp
  also have "int \<dots> = GetNumElementsDisk c"
    using S R by (simp add: counts_clamped [OF cl] algebra_simps)
  finally show ?thesis by simp
qed

lemma length_side_part:
  assumes cl: "resolution_clamped c"
  shows "length (corners (side_part c lay)) = nat (GetNumElementsSide c)"
proof -
  from cl have S: "3 \<le> numSlices c" and K: "1 \<le> numStacks c"
    by (simp_all add: resolution_clamped_def)
  have "length (side_part c lay) = length [0..numSlices c - 1] * (1 + 2 * nat (numStacks c - 1))"
    unfolding side_part_def by (rule length_concat_map_const) (rule length_side_triangles)
  then have "length (corners (side_part c lay))
      = 3 * (nat (numSlices c) * (1 + 2 * nat (numStacks c - 1)))"
    by simp
  also have "int \<dots> = GetNumElementsSide c"
    using S K by (simp add: counts_clamped [OF cl] algebra_simps)
  finally show ?thesis by simp
qed


text \<open>Regions of the element buffer.\<close>

lemma ebo_take_drop:
  assumes cl: "resolution_clamped c"
  shows "take (nat (GetNumElementsDisk c)) (ebo_entries c lay) = corners (disk_part c)"
    and "drop (nat (GetNumElementsDisk c)) (ebo_entries c lay) = corners (side_part c lay)"
  unfolding ebo_entries_exact [OF cl] using length_disk_part [OF cl] by simp_all

text \<open>The corners of the triangles are records of the right part of the buffer.\<close>

lemma grid_cell_range:
  fixes a b m n :: int
  assumes "0 \<le> b" "b < n" "0 \<le> a" "a < m"
  shows "0 \<le> b * m + a \<and> b * m + a < n * m"
proof -
  have "0 \<le> m" using assms by simp
  then have "b * m + a < n * m" using assms by (intro grid_bound) simp_all
  moreover have "0 \<le> b * m" using assms \<open>0 \<le> m\<close> by simp
  ultimately show ?thesis using assms by simp
qed

lemma mult_ne_one:
  fixes d m :: int
  assumes "2 \<le> m"
  shows "d * m \<noteq> 1"
  using assms by (auto simp: zmult_eq_1_iff)

lemma ring_record_range:
  assumes cl: "resolution_clamped c" and b: "0 \<le> b" "b < numSlices c"
    and a: "1 \<le> a" "a \<le> numRings c"
  shows "1 \<le> ring_record c b a \<and> ring_record c b a < GetNumVerticesDisk c"
proof -
  have "0 \<le> a - 1" "a - 1 < numRings c"
    using a by simp_all
  from grid_cell_range [OF b this] show ?thesis
    unfolding counts_clamped(2) [OF cl] ring_record_def mult.commute [of "numRings c"]
    by linarith
qed

lemma disk_le_vertex_count:
  assumes cl: "resolution_clamped c"
  shows "GetNumVerticesDisk c \<le> vertex_count c lay"
proof -
  from cl have "0 \<le> numSlices c * (numStacks c + 1)" "0 \<le> numStacks c"
    by (simp_all add: resolution_clamped_def)
  then show ?thesis
    unfolding vertex_count_eq [OF cl] counts_clamped(2) [OF cl] by simp
qed

lemma side_record_range:
  assumes cl: "resolution_clamped c" and b: "0 \<le> b" "b \<le> stopSlices c lay"
    and a: "0 \<le> a" "a < numStacks c \<or> (b < numSlices c \<and> a = numStacks c)"
  shows "GetNumVerticesDisk c \<le> side_record c b a \<and> side_record c b a < vertex_count c lay"
proof -
  from cl have K: "1 \<le> numStacks c"
    by (simp add: resolution_clamped_def)
  from a(2) b a(1) have "side_record c b a \<in> set (vbo_records c lay)"
    by (auto intro: vbo_records_sideI vbo_records_apexI)
  from vbo_records_in_range [OF cl this] have "side_record c b a < vertex_count c lay"
    by simp
  moreover have "0 \<le> b * (numStacks c + 1)"
    using b K by simp
  then have "GetNumVerticesDisk c \<le> side_record c b a"
    unfolding counts_clamped(2) [OF cl] side_record_def using a(1) by linarith
  ultimately show ?thesis by simp
qed

lemma ring_record_inj:
  assumes "1 \<le> numRings c" and "b \<noteq> b'"
  shows "ring_record c b a \<noteq> ring_record c b' a"
  using assms by (simp add: ring_record_def)

lemma ring_record_step:
  assumes "2 \<le> numRings c"
  shows "ring_record c b a \<noteq> ring_record c b' (a + 1)"
proof
  assume "ring_record c b a = ring_record c b' (a + 1)"
  then have "(b - b') * numRings c = 1"
    by (simp add: ring_record_def algebra_simps)
  with mult_ne_one [OF assms, of "b - b'"] show False by simp
qed

lemma side_record_inj:
  assumes "1 \<le> numStacks c" and "b \<noteq> b'"
  shows "side_record c b a \<noteq> side_record c b' a"
  using assms by (simp add: side_record_def)

lemma side_record_step:
  assumes "1 \<le> numStacks c"
  shows "side_record c b a \<noteq> side_record c b' (a + 1)"
proof
  assume "side_record c b a = side_record c b' (a + 1)"
  then have "(b - b') * (numStacks c + 1) = 1"
    by (simp add: side_record_def algebra_simps)
  moreover have "2 \<le> numStacks c + 1"
    using assms by simp
  ultimately show False
    using mult_ne_one [of "numStacks c + 1" "b - b'"] by simp
qed

lemma disk_triangles_cases:
  assumes "t \<in> set (disk_triangles c i)"
  obtains "t = (0, ring_record c ((i + 1) mod numSlices c) 1, ring_record c i 1)"
  | j where "0 \<le> j" "j \<le> numRings c - 2"
      "t = (ring_record c i (j + 1), ring_record c ((i + 1) mod numSlices c) (j + 1),
            ring_record c ((i + 1) mod numSlices c) (j + 2))"
  | j where "0 \<le> j" "j \<le> numRings c - 2"
      "t = (ring_record c i (j + 1), ring_record c ((i + 1) mod numSlices c) (j + 2),
            ring_record c i (j + 2))"
  using assms unfolding disk_triangles_def by auto

lemma side_triangles_cases:
  assumes "t \<in> set (side_triangles c lay i)"
  obtains j where "0 \<le> j" "j \<le> numStacks c - 2"
      "t = (side_record c (right_slice c lay i) j, side_record c i (j + 1), side_record c i j)"
  | j where "0 \<le> j" "j \<le> numStacks c - 2"
      "t = (side_record c (right_slice c lay i) j, side_record c (right_slice c lay i) (j + 1),
            side_record c i (j + 1))"
  | "t = (side_record c (right_slice c lay i) (numStacks c - 1), side_record c i (numStacks c),
          side_record c i (numStacks c - 1))"
  using assms unfolding side_triangles_def by auto

lemma disk_triangles_ok:
  assumes cl: "resolution_clamped c" and i: "0 \<le> i" "i < numSlices c"
    and t: "t \<in> set (disk_triangles c i)"
  shows "triangle_ok (GetNumVerticesDisk c) t"
proof -
  define i' where "i' = (i + 1) mod numSlices c"
  from cl have S: "3 \<le> numSlices c" and R: "1 \<le> numRings c"
    by (simp_all add: resolution_clamped_def)
  from mod_slice_range [OF S i] have i': "0 \<le> i'" "i' < numSlices c" "i' \<noteq> i"
    by (simp_all add: i'_def)
  note ra = ring_record_range [OF cl i] and rb = ring_record_range [OF cl i'(1,2)]
  have D: "0 < GetNumVerticesDisk c"
    using ra [of 1] R by simp
  from t show ?thesis
  proof (cases rule: disk_triangles_cases)
    case 1
    with ra [of 1] rb [of 1] R D ring_record_inj [OF R i'(3), of 1] show ?thesis
      by (simp add: triangle_ok_def i'_def)
  next
    case (2 j)
    then have R2: "2 \<le> numRings c" by simp
    from 2 ra [of "j + 1"] rb [of "j + 1"] rb [of "j + 2"]
      ring_record_inj [OF R i'(3) [symmetric], of "j + 1"]
      ring_record_step [OF R2, of i "j + 1" i']
    show ?thesis
      by (simp add: triangle_ok_def i'_def [symmetric] ring_record_def)
  next
    case (3 j)
    then have R2: "2 \<le> numRings c" by simp
    from 3 ra [of "j + 1"] ra [of "j + 2"] rb [of "j + 2"]
      ring_record_inj [OF R i'(3), of "j + 2"]
      ring_record_step [OF R2, of i "j + 1" i']
    show ?thesis
      by (simp add: triangle_ok_def i'_def [symmetric] ring_record_def)
  qed
qed

lemma side_triangles_ok:
  assumes cl: "resolution_clamped c" and i: "0 \<le> i" "i < numSlices c"
    and t: "t \<in> set (side_triangles c lay i)"
  shows "triangle_ok (vertex_count c lay) t
       \<and> (case t of (a, b, d) \<Rightarrow> GetNumVerticesDisk c \<le> a \<and> GetNumVerticesDisk c \<le> b
                                 \<and> GetNumVerticesDisk c \<le> d)"
proof -
  define i' where "i' = right_slice c lay i"
  from cl have S: "3 \<le> numSlices c" and K: "1 \<le> numStacks c" and R: "1 \<le> numRings c"
    by (simp_all add: resolution_clamped_def)
  from right_slice_range [OF cl i, of lay]
  have i': "0 \<le> i'" "i' \<le> stopSlices c lay" "i' \<noteq> i"
    by (simp_all add: i'_def)
  have it: "i \<le> stopSlices c lay"
    using i by (simp add: stopSlices_clamped [OF cl])
  note ra = side_record_range [OF cl i(1) it] and rb = side_record_range [OF cl i'(1,2)]
  have D: "0 \<le> GetNumVerticesDisk c"
    using clamped_products(1) [OF cl] by (simp add: counts_clamped(2) [OF cl])
  from t show ?thesis
  proof (cases rule: side_triangles_cases)
    case (1 j)
    from 1 ra [of "j + 1"] ra [of j] rb [of j] i(2) D
      side_record_inj [OF K i'(3), of j]
      side_record_step [OF K, of i' j i]
    show ?thesis
      by (simp add: triangle_ok_def i'_def [symmetric] side_record_def)
  next
    case (2 j)
    from 2 ra [of "j + 1"] rb [of "j + 1"] rb [of j] i(2) D
      side_record_inj [OF K i'(3), of "j + 1"]
      side_record_step [OF K, of i' j i]
    show ?thesis
      by (simp add: triangle_ok_def i'_def [symmetric] side_record_def)
  next
    case 3
    from 3 ra [of "numStacks c"] ra [of "numStacks c - 1"] rb [of "numStacks c - 1"] i(2) D K
      side_record_inj [OF K i'(3), of "numStacks c - 1"]
      side_record_step [OF K, of i' "numStacks c - 1" i]
    show ?thesis
      by (simp add: triangle_ok_def i'_def [symmetric] side_record_def)
  qed
qed

lemma disk_part_ok:
  assumes cl: "resolution_clamped c" and t: "t \<in> set (disk_part c)"
  shows "triangle_ok (GetNumVerticesDisk c) t"
proof -
  from t obtain i where "0 \<le> i" "i < numSlices c" "t \<in> set (disk_triangles c i)"
    unfolding disk_part_def by auto
  then show ?thesis
    by (intro disk_triangles_ok [OF cl])
qed

lemma side_part_ok:
  assumes cl: "resolution_clamped c" and t: "t \<in> set (side_part c lay)"
  shows "triangle_ok (vertex_count c lay) t
       \<and> (case t of (a, b, d) \<Rightarrow> GetNumVerticesDisk c \<le> a \<and> GetNumVerticesDisk c \<le> b
                                 \<and> GetNumVerticesDisk c \<le> d)"
proof -
  from t obtain i where "0 \<le> i" "i < numSlices c" "t \<in> set (side_triangles c lay i)"
    unfolding side_part_def by auto
  then show ?thesis
    by (intro side_triangles_ok [OF cl])
qed

lemma triangle_ok_mono: "triangle_ok m t \<Longrightarrow> m \<le> n \<Longrightarrow> triangle_ok n t"
  by (auto simp: triangle_ok_def)

lemma ebo_triangles_ok:
  assumes cl: "resolution_clamped c" and t: "t \<in> set (triangles (ebo_entries c lay))"
  shows "triangle_ok (vertex_count c lay) t"
proof -
  from t consider "t \<in> set (disk_part c)" | "t \<in> set (side_part c lay)"
    unfolding triangles_ebo_entries [OF cl] by auto
  then show ?thesis
  proof cases
    case 1
    from triangle_ok_mono [OF disk_part_ok [OF cl 1] disk_le_vertex_count [OF cl]]
    show ?thesis .
  next
    case 2
    from side_part_ok [OF cl 2] show ?thesis by simp
  qed
qed

lemma disk_corners_range:
  assumes cl: "resolution_clamped c" and x: "x \<in> set (corners (disk_part c))"
  shows "0 \<le> x \<and> x < GetNumVerticesDisk c"
proof -
  from x obtain a b d where t: "(a, b, d) \<in> set (disk_part c)" and "x = a \<or> x = b \<or> x = d"
    unfolding set_corners by blast
  with disk_part_ok [OF cl t] show ?thesis
    by (auto simp: triangle_ok_def)
qed

lemma side_corners_range:
  assumes cl: "resolution_clamped c" and x: "x \<in> set (corners (side_part c lay))"
  shows "GetNumVerticesDisk c \<le> x \<and> x < vertex_count c lay"
proof -
  from x obtain a b d where t: "(a, b, d) \<in> set (side_part c lay)" and "x = a \<or> x = b \<or> x = d"
    unfolding set_corners by blast
  with side_part_ok [OF cl t] show ?thesis
    by (auto simp: triangle_ok_def)
qed

section \<open>Writes by the statement that made them\<close>

lemma slice_vertices_blocks:
  "slice_vertices ops c lay i =
     (if i < numSlices c
      then concat (map (\<lambda>j. by_origin (Ring i j) (ring_block ops c lay i j)) [1..numRings c])
      else [])
     @ concat (map (\<lambda>j. by_origin (Side i j) (side_block ops c lay i j)) [0..numStacks c - 1])
     @ (if i < numSlices c then by_origin (Apex i) (apex_block ops c lay i) else [])"
  by (simp add: slice_vertices_def Let_def side_pointer_0 side_loop_slice ring_vertices_def
      for_le_eq ring_block_def side_block_def apex_block_def slice_theta_def)

lemma vbo_writes_blocks:
  "vbo_writes ops c lay =
     by_origin Center (SetBaseVert ops c (f_lit ops 0) (f_lit ops 0) 0 0 lay)
     @ concat (map (slice_vertices ops c lay) [0..stopSlices c lay])"
  by (simp add: vbo_writes_def for_le_eq)

lemma set_by_origin: "set (by_origin orig ws) = Pair orig ` set ws"
  by (simp add: by_origin_def)

lemma mem_slice_Side:
  "(Side i j, w) \<in> set (slice_vertices ops c lay i') \<longleftrightarrow>
     i' = i \<and> 0 \<le> j \<and> j < numStacks c \<and> w \<in> set (side_block ops c lay i j)"
  unfolding slice_vertices_blocks by (auto simp: set_by_origin)


lemma mem_slice_Apex:
  "(Apex i, w) \<in> set (slice_vertices ops c lay i') \<longleftrightarrow>
     i' = i \<and> i < numSlices c \<and> w \<in> set (apex_block ops c lay i)"
  unfolding slice_vertices_blocks by (auto simp: set_by_origin)

lemma mem_slice_Center: "(Center, w) \<notin> set (slice_vertices ops c lay i')"
  unfolding slice_vertices_blocks by (auto simp: set_by_origin)

lemma mem_vbo_Side:
  "(Side i j, w) \<in> set (vbo_writes ops c lay) \<longleftrightarrow>
     0 \<le> i \<and> i \<le> stopSlices c lay \<and> 0 \<le> j \<and> j < numStacks c
     \<and> w \<in> set (side_block ops c lay i j)"
  unfolding vbo_writes_blocks by (auto simp: set_by_origin mem_slice_Side)


lemma mem_vbo_Apex:
  "(Apex i, w) \<in> set (vbo_writes ops c lay) \<longleftrightarrow>
     0 \<le> i \<and> i \<le> stopSlices c lay \<and> i < numSlices c \<and> w \<in> set (apex_block ops c lay i)"
  unfolding vbo_writes_blocks by (auto simp: set_by_origin mem_slice_Apex)

lemma mem_vbo_Center:
  "(Center, w) \<in> set (vbo_writes ops c lay) \<longleftrightarrow>
     w \<in> set (SetBaseVert ops c (f_lit ops 0) (f_lit ops 0) 0 0 lay)"
  unfolding vbo_writes_blocks by (auto simp: set_by_origin mem_slice_Center)

lemma vertex_origins_append [simp]:
  "vertex_origins (xs @ ys) = vertex_origins xs @ vertex_origins ys"
  by (simp add: vertex_origins_def)

lemma vertex_origins_Nil [simp]: "vertex_origins [] = []"
  by (simp add: vertex_origins_def)

lemma vertex_origins_concat:
  "vertex_origins (concat xss) = concat (map vertex_origins xss)"
  by (induction xss) simp_all

lemma written_vertices_origins: "written_vertices ws = map snd (vertex_origins ws)"
  by (simp add: written_vertices_def vertex_origins_def comp_def)

lemma vertex_origins_block:
  assumes "map fst ws = vertex_keys lay v"
  shows "vertex_origins (by_origin orig ws) = [(orig, v)]"
proof -
  have "vertex_origins (by_origin orig ws)
      = map (\<lambda>k. (orig, fst k)) (filter (\<lambda>k. snd k = (Position, 0)) (map fst ws))"
    by (simp add: vertex_origins_def by_origin_def write_key_def filter_map comp_def)
  also have "\<dots> = [(orig, v)]"
    by (simp add: assms vertex_keys_def enabled_components_def)
  finally show ?thesis .
qed

lemma vertex_origins_ring_block:
  "vertex_origins (by_origin orig (ring_block ops c lay i j)) = [(orig, ring_pointer c lay i j)]"
  by (rule vertex_origins_block [where lay = lay]) (simp add: ring_block_def keys_SetBaseVert)

lemma vertex_origins_side_block:
  "vertex_origins (by_origin orig (side_block ops c lay i j)) = [(orig, side_pointer c lay i j)]"
  by (rule vertex_origins_block [where lay = lay]) (simp add: side_block_def keys_side_vertex)

lemma vertex_origins_apex_block:
  "vertex_origins (by_origin orig (apex_block ops c lay i))
     = [(orig, side_pointer c lay i (max 0 (numStacks c)))]"
  by (rule vertex_origins_block [where lay = lay]) (simp add: apex_block_def keys_apex_vertex)

lemma vertex_origins_center:
  "vertex_origins (by_origin orig (SetBaseVert ops c x z 0 0 lay)) = [(orig, 0)]"
  by (rule vertex_origins_block [where lay = lay])
    (simp add: keys_SetBaseVert ring_pointer_center)

lemma vertex_origins_slice:
  "vertex_origins (slice_vertices ops c lay i) =
     (if i < numSlices c then map (\<lambda>j. (Ring i j, ring_pointer c lay i j)) [1..numRings c] else [])
     @ map (\<lambda>j. (Side i j, side_pointer c lay i j)) [0..numStacks c - 1]
     @ (if i < numSlices c then [(Apex i, side_pointer c lay i (max 0 (numStacks c)))] else [])"
  unfolding slice_vertices_blocks
  by (simp add: vertex_origins_concat comp_def vertex_origins_ring_block
      vertex_origins_side_block vertex_origins_apex_block concat_map_singleton)

lemma vertex_origins_vbo:
  "vertex_origins (vbo_writes ops c lay) =
     (Center, 0) # concat (map (\<lambda>i. vertex_origins (slice_vertices ops c lay i))
                           [0..stopSlices c lay])"
  unfolding vbo_writes_blocks
  by (simp add: vertex_origins_concat comp_def vertex_origins_center)

lemma filter_concat_map:
  "filter P (concat (map f xs)) = concat (map (\<lambda>x. filter P (f x)) xs)"
  by (induction xs) simp_all

lemma apex_origins_slice:
  "filter (\<lambda>p. is_apex (fst p)) (vertex_origins (slice_vertices ops c lay i)) =
     (if i < numSlices c then [(Apex i, side_pointer c lay i (max 0 (numStacks c)))] else [])"
  unfolding vertex_origins_slice by (simp add: filter_map comp_def)


lemma upto_stopSlices:
  assumes "resolution_clamped c"
  shows "[0..stopSlices c lay] =
     [0..numSlices c - 1] @ (if vertTexCoordsOffset lay \<ge> 0 then [numSlices c] else [])"
proof -
  from assms have "0 \<le> numSlices c"
    by (simp add: resolution_clamped_def)
  then show ?thesis
    by (simp add: stopSlices_clamped [OF assms] upto_rec2)
qed

lemma concat_map_if_upto:
  fixes S :: int
  shows "concat (map (\<lambda>i. if i < S then f i else []) [0..S - 1]) = concat (map f [0..S - 1])"
  by (rule arg_cong [where f = concat], rule map_cong) simp_all

lemma apex_pointers_vbo:
  assumes "resolution_clamped c"
  shows "filter (\<lambda>p. is_apex (fst p)) (vertex_origins (vbo_writes ops c lay)) =
     map (\<lambda>i. (Apex i, side_pointer c lay i (max 0 (numStacks c)))) [0..numSlices c - 1]"
  unfolding vertex_origins_vbo upto_stopSlices [OF assms]
  by (simp add: filter_concat_map apex_origins_slice concat_map_if_upto concat_map_singleton)


lemma apex_origins_vbo:
  assumes cl: "resolution_clamped c" and fits: "buffer_fits c lay"
  shows "filter (\<lambda>p. is_apex (fst p)) (vertex_origins (vbo_writes ops c lay)) =
     map (\<lambda>i. (Apex i, record_start lay (side_record c i (numStacks c)))) [0..numSlices c - 1]"
proof -
  from cl have K: "1 \<le> numStacks c"
    by (simp add: resolution_clamped_def)
  have "side_pointer c lay i (max 0 (numStacks c))
      = record_start lay (side_record c i (numStacks c))" if "i \<in> set [0..numSlices c - 1]" for i
    using that K by (simp add: side_pointer_written [OF cl fits] stopSlices_clamped [OF cl])
  then have "map (\<lambda>i. (Apex i, side_pointer c lay i (max 0 (numStacks c)))) [0..numSlices c - 1]
      = map (\<lambda>i. (Apex i, record_start lay (side_record c i (numStacks c)))) [0..numSlices c - 1]"
    by (intro map_cong) simp_all
  then show ?thesis
    unfolding apex_pointers_vbo [OF cl] .
qed


lemma mem_origins_slice_Side:
  "(Side i j, v) \<in> set (vertex_origins (slice_vertices ops c lay i')) \<longleftrightarrow>
     i' = i \<and> 0 \<le> j \<and> j < numStacks c \<and> v = side_pointer c lay i j"
  unfolding vertex_origins_slice by auto

lemma mem_pointers_Side:
  "(Side i j, v) \<in> set (vertex_origins (vbo_writes ops c lay)) \<longleftrightarrow>
     0 \<le> i \<and> i \<le> stopSlices c lay \<and> 0 \<le> j \<and> j < numStacks c \<and> v = side_pointer c lay i j"
  unfolding vertex_origins_vbo by (auto simp: mem_origins_slice_Side)

lemma mem_origins_Side:
  assumes cl: "resolution_clamped c" and fits: "buffer_fits c lay"
  shows "(Side i j, v) \<in> set (vertex_origins (vbo_writes ops c lay)) \<longleftrightarrow>
     0 \<le> i \<and> i \<le> stopSlices c lay \<and> 0 \<le> j \<and> j < numStacks c
     \<and> v = record_start lay (side_record c i j)"
  unfolding mem_pointers_Side using side_pointer_written [OF cl fits, of i j] by auto


section \<open>The run of CalcVboAndEbo on a clamped resolution\<close>

lemma CalcVboAndEbo_clamped:
  assumes "resolution_clamped c" "0 \<le> vertPosOffset lay" "0 < stride_arg lay"
  shows "CalcVboAndEbo ops c lay = Inr (vbo_writes ops c lay, ebo_entries c lay)"
  using assms
  by (simp add: CalcVboAndEbo_def stopSlices_clamped [OF assms(1)] resolution_clamped_def)

lemma CalcVboAndEbo_fits:
  assumes "resolution_clamped c" "0 \<le> vertPosOffset lay" "buffer_fits c lay"
  shows "CalcVboAndEbo ops c lay = Inr (vbo_writes ops c lay, ebo_entries c lay)"
  using assms(2) stride_arg_fits [OF assms(1,3)]
  by (intro CalcVboAndEbo_clamped [OF assms(1)]) simp_all


section \<open>Values read back from the vertex buffer\<close>

lemma distinct_float_indices:
  assumes cl: "resolution_clamped c" and fits: "buffer_fits c lay"
    and fit: "attribs_within_stride lay" and dis: "attribs_disjoint lay"
  shows "distinct (map (\<lambda>w. float_index lay (fst w)) (map snd (vbo_writes ops c lay)))"
proof -
  have "inj_on (float_index lay) (set (map write_key (vbo_writes ops c lay)))"
    unfolding set_keys_vbo [OF cl fits]
    by (rule inj_on_subset [OF float_index_inj [OF fit dis]]) auto
  with distinct_keys_vbo [OF cl fits, of ops]
  have "distinct (map (float_index lay) (map write_key (vbo_writes ops c lay)))"
    by (subst distinct_map) simp
  then show ?thesis
    by (simp add: comp_def write_key_def)
qed

lemma vbo_memory_written:
  assumes cl: "resolution_clamped c" and fits: "buffer_fits c lay"
    and fit: "attribs_within_stride lay" and dis: "attribs_disjoint lay"
    and w: "(orig, k, x) \<in> set (vbo_writes ops c lay)"
  shows "vbo_memory lay (map snd (vbo_writes ops c lay)) (float_index lay k) = Some x"
proof (rule vbo_memory_read [OF distinct_float_indices [OF cl fits fit dis]])
  from w show "(k, x) \<in> set (map snd (vbo_writes ops c lay))" by force
qed

lemma apex_block_position:
  "((v, Position, 0), f_lit ops 0) \<in> set (apex_vertex ops c lay i v)
   \<and> ((v, Position, 1), f_lit ops 1) \<in> set (apex_vertex ops c lay i v)
   \<and> ((v, Position, 2), f_lit ops 0) \<in> set (apex_vertex ops c lay i v)"
  by (simp add: apex_vertex_def write3_def)

lemma apex_origin_cases:
  assumes "p \<in> set (filter (\<lambda>p. is_apex (fst p)) (vertex_origins (vbo_writes ops c lay)))"
    and cl: "resolution_clamped c"
  obtains i where "0 \<le> i" "i < numSlices c"
    "p = (Apex i, side_pointer c lay i (max 0 (numStacks c)))"
  using assms unfolding apex_pointers_vbo [OF cl] by auto

lemma apex_positions_written:
  assumes cl: "resolution_clamped c"
    and p: "(orig, v) \<in> set (filter (\<lambda>p. is_apex (fst p)) (vertex_origins (vbo_writes ops c lay)))"
  shows "(orig, (v, Position, 0), f_lit ops 0) \<in> set (vbo_writes ops c lay)
       \<and> (orig, (v, Position, 1), f_lit ops 1) \<in> set (vbo_writes ops c lay)
       \<and> (orig, (v, Position, 2), f_lit ops 0) \<in> set (vbo_writes ops c lay)"
proof -
  from p cl obtain i where i: "0 \<le> i" "i < numSlices c"
    and e: "(orig, v) = (Apex i, side_pointer c lay i (max 0 (numStacks c)))"
    by (rule apex_origin_cases)
  have "i \<le> stopSlices c lay" using i by (simp add: stopSlices_clamped [OF cl])
  with i e show ?thesis
    using apex_block_position [of v ops c lay i]
    by (simp add: mem_vbo_Apex apex_block_def)
qed

lemma read_position_written:
  assumes cl: "resolution_clamped c" and fits: "buffer_fits c lay"
    and fit: "attribs_within_stride lay" and dis: "attribs_disjoint lay"
    and w: "(orig, (v, a, 0), x) \<in> set (vbo_writes ops c lay)"
      "(orig, (v, a, 1), y) \<in> set (vbo_writes ops c lay)"
      "(orig, (v, a, 2), z) \<in> set (vbo_writes ops c lay)"
  shows "read_floats lay (vbo_writes ops c lay) v a [0, 1, 2] = [Some x, Some y, Some z]"
  unfolding read_floats_def
  using vbo_memory_written [OF cl fits fit dis w(1)] vbo_memory_written [OF cl fits fit dis w(2)]
    vbo_memory_written [OF cl fits fit dis w(3)]
  by simp

lemma slice_theta_seam:
  assumes "0 < numSlices c"
  shows "slice_theta ops c (numSlices c) = slice_theta ops c 0"
  by (simp add: slice_theta_def)

lemma side_block_writes:
  "((side_pointer c lay i j, Position, 0),
      f_mul ops (f_neg ops (f_sin ops (slice_theta ops c i)))
        (f_sub ops (f_lit ops 1) (f_div ops (f_of_int ops j) (f_of_int ops (numStacks c)))))
     \<in> set (side_block ops c lay i j)"
  "((side_pointer c lay i j, Position, 1),
      f_div ops (f_of_int ops j) (f_of_int ops (numStacks c)))
     \<in> set (side_block ops c lay i j)"
  "((side_pointer c lay i j, Position, 2),
      f_mul ops (f_neg ops (f_cos ops (slice_theta ops c i)))
        (f_sub ops (f_lit ops 1) (f_div ops (f_of_int ops j) (f_of_int ops (numStacks c)))))
     \<in> set (side_block ops c lay i j)"
  "0 \<le> vertTexCoordsOffset lay \<Longrightarrow>
   ((side_pointer c lay i j, TexCoords, 0),
      f_div ops (f_of_int ops i) (f_of_int ops (numSlices c)))
     \<in> set (side_block ops c lay i j)"
  by (simp_all add: side_block_def side_vertex_def Let_def write3_def write2_def)

lemma layout_interleaved_ok:
  "0 \<le> vertPosOffset layout_interleaved" "stride_arg layout_interleaved = 8"
  "0 \<le> vertTexCoordsOffset layout_interleaved"
  "attribs_within_stride layout_interleaved" "attribs_disjoint layout_interleaved"
  by (simp_all add: layout_interleaved_def attribs_within_stride_def attribs_disjoint_def
      enabled_components_def component_offset_def stride_arg_def uint32_def)

lemma layout_position_only_ok:
  "0 \<le> vertPosOffset layout_position_only" "stride_arg layout_position_only = 3"
  "\<not> 0 \<le> vertTexCoordsOffset layout_position_only"
  "attribs_within_stride layout_position_only" "attribs_disjoint layout_position_only"
  by (simp_all add: layout_position_only_def attribs_within_stride_def attribs_disjoint_def
      enabled_components_def component_offset_def stride_arg_def uint32_def)

lemma clamped_311: "resolution_clamped (GlGeomCone 3 1 1)"
  by (simp add: resolution_clamped_def GlGeomCone_def)

lemma fits_311:
  "buffer_fits (GlGeomCone 3 1 1) layout_interleaved"
  "buffer_fits (GlGeomCone 3 1 1) layout_position_only"
  by (simp_all add: buffer_fits_def vertex_count_def count_defs arith32_defs int32_def
      GlGeomCone_def layout_interleaved_def layout_position_only_def)

section \<open>Where the arithmetic wraps\<close>

lemma mem_pointers_Apex:
  "(Apex i, v) \<in> set (vertex_origins (vbo_writes ops c lay)) \<longleftrightarrow>
     0 \<le> i \<and> i \<le> stopSlices c lay \<and> i < numSlices c
     \<and> v = side_pointer c lay i (max 0 (numStacks c))"
  unfolding vertex_origins_vbo vertex_origins_slice by auto




lemma ebo_first_triangle:
  assumes "0 < numSlices c"
  shows "\<exists>rest. ebo_entries c lay =
     uint32 0 # uint32 (add32 (mul32 (add32 0 1 mod numSlices c) (numRings c)) 1)
     # uint32 (add32 (mul32 0 (numRings c)) 1) # rest"
proof -
  from assms have "[0..numSlices c - 1] = 0 # [0 + 1..numSlices c - 1]"
    by (intro upto_rec1) simp
  then show ?thesis
    unfolding ebo_entries_eq by (simp add: disk_elements_def Let_def)
qed

section \<open>The claims about the generated buffers\<close>




text \<open>
  C3 as stated holds for every valid resolution. For the valid
  \<open>GlGeomCone(50000, 1, 50000)\<close> the vertex-count query overflows and returns
  \<open>-1794867295\<close>, so the first triangle \<open>(0, 50001, 1)\<close> of the element buffer has no index
  in \<open>0 .. vertexCount - 1\<close>.
\<close>

theorem C3_counterexample:
  "valid_resolution (GlGeomCone 50000 1 50000)
   \<and> 0 \<le> vertPosOffset layout_position_only \<and> 0 < stride_arg layout_position_only
   \<and> vertex_count (GlGeomCone 50000 1 50000) layout_position_only = - 1794867295
   \<and> (case CalcVboAndEbo real_ops (GlGeomCone 50000 1 50000) layout_position_only of
         Inl e \<Rightarrow> False
       | Inr (ws, es) \<Rightarrow>
           (0, 50001, 1) \<in> set (triangles es)
         \<and> \<not> triangle_ok (vertex_count (GlGeomCone 50000 1 50000) layout_position_only)
               (0, 50001, 1))"
proof -
  let ?A = "GlGeomCone 50000 1 50000"
  have v: "valid_resolution ?A"
    by (simp add: valid_resolution_def GlGeomCone_def)
  note p = layout_position_only_ok
  have n: "vertex_count ?A layout_position_only = - 1794867295"
    by (simp add: vertex_count_def count_defs arith32_defs int32_def GlGeomCone_def
        layout_position_only_def)
  have r: "CalcVboAndEbo real_ops ?A layout_position_only
      = Inr (vbo_writes real_ops ?A layout_position_only, ebo_entries ?A layout_position_only)"
    by (simp add: CalcVboAndEbo_def stopSlices_def sub32_def int32_def p GlGeomCone_def)
  have "0 < numSlices ?A"
    by (simp add: GlGeomCone_def)
  from ebo_first_triangle [OF this, of layout_position_only] obtain rest
    where "ebo_entries ?A layout_position_only = 0 # 50001 # 1 # rest"
    by (auto simp: arith32_defs int32_def uint32_def GlGeomCone_def)
  then have t: "(0, 50001, 1) \<in> set (triangles (ebo_entries ?A layout_position_only))"
    by simp
  have "\<not> triangle_ok (- 1794867295) (0, 50001, 1)"
    by (simp add: triangle_ok_def)
  with v p(1) p(2) n t show ?thesis
    unfolding r n by simp
qed

text \<open>
  C3, amended. For every resolution in the clamped ranges, both texture-coordinate
  variants and a buffer whose size is an \<open>int\<close>, the element buffer consists of whole
  triangles, and each triangle has three pairwise different indices, each in
  \<open>0 .. vertexCount - 1\<close> for the matching vertex count.
\<close>

theorem C3_triangles_distinct_in_range:
  assumes "resolution_clamped c" and "0 \<le> vertPosOffset lay" and "buffer_fits c lay"
  shows "case CalcVboAndEbo ops c lay of
           Inl e \<Rightarrow> False
         | Inr (ws, es) \<Rightarrow>
             3 * length (triangles es) = length es
           \<and> list_all (triangle_ok (vertex_count c lay)) (triangles es)"
proof -
  have "length (ebo_entries c lay) = 3 * length (disk_part c @ side_part c lay)"
    unfolding ebo_entries_exact [OF assms(1)] by simp
  then have "3 * length (triangles (ebo_entries c lay)) = length (ebo_entries c lay)"
    by (simp only: triangles_ebo_entries [OF assms(1)])
  with ebo_triangles_ok [OF assms(1), of _ lay] show ?thesis
    unfolding CalcVboAndEbo_fits [OF assms] by (simp add: list_all_iff)
qed

theorem C3_triangles_witness:
  "resolution_clamped (GlGeomCone 3 1 1)
   \<and> 0 \<le> vertPosOffset layout_position_only
   \<and> buffer_fits (GlGeomCone 3 1 1) layout_position_only
   \<and> vertex_count (GlGeomCone 3 1 1) layout_position_only = 10
   \<and> (case CalcVboAndEbo real_ops (GlGeomCone 3 1 1) layout_position_only of
         Inl e \<Rightarrow> False
       | Inr (ws, es) \<Rightarrow>
           triangles es = [(0, 2, 1), (0, 3, 2), (0, 1, 3), (6, 5, 4), (8, 7, 6), (4, 9, 8)]
         \<and> list_all (triangle_ok 10) (triangles es))"
proof -
  note cl = clamped_311
  note p = layout_position_only_ok
  note s = fits_311(2)
  have n: "vertex_count (GlGeomCone 3 1 1) layout_position_only = 10"
    by (simp add: vertex_count_def count_defs arith32_defs int32_def GlGeomCone_def
        layout_position_only_def)
  have e: "triangles (ebo_entries (GlGeomCone 3 1 1) layout_position_only)
      = [(0, 2, 1), (0, 3, 2), (0, 1, 3), (6, 5, 4), (8, 7, 6), (4, 9, 8)]"
    unfolding triangles_ebo_entries [OF cl]
    by (simp add: disk_part_def side_part_def disk_triangles_def side_triangles_def
        ring_record_def side_record_def right_slice_def GlGeomCone_def layout_position_only_def
        upto_rec1)
  from C3_triangles_distinct_in_range [OF cl p(1) s, of real_ops]
  have "case CalcVboAndEbo real_ops (GlGeomCone 3 1 1) layout_position_only of
         Inl e \<Rightarrow> False
       | Inr (ws, es) \<Rightarrow>
           triangles es = [(0, 2, 1), (0, 3, 2), (0, 1, 3), (6, 5, 4), (8, 7, 6), (4, 9, 8)]
         \<and> list_all (triangle_ok 10) (triangles es)"
    unfolding n CalcVboAndEbo_fits [OF cl p(1) s] by (simp add: e)
  with cl p(1) s n show ?thesis by simp
qed

text \<open>
  C10 as stated has no restriction on the resolution. For \<open>GlGeomCone(50000, 1, 50000)\<close>
  the query \<open>GetNumVerticesDisk\<close> overflows and returns \<open>-1794967295\<close>, while
  \<open>GetNumElementsDisk\<close> returns \<open>299997 * 50000\<close> wrapped, \<open>2114948112\<close>; the first entry that
  \<open>RenderBase\<close> draws is the centre index 0, which is not below \<open>GetNumVerticesDisk\<close>.
\<close>

theorem C10_counterexample:
  "0 \<le> vertPosOffset layout_position_only \<and> 0 < stride_arg layout_position_only
   \<and> GetNumVerticesDisk (GlGeomCone 50000 1 50000) = - 1794967295
   \<and> GetNumElementsDisk (GlGeomCone 50000 1 50000) = 2114948112
   \<and> (case CalcVboAndEbo real_ops (GlGeomCone 50000 1 50000) layout_position_only of
         Inl e \<Rightarrow> False
       | Inr (ws, es) \<Rightarrow>
           0 \<in> set (take (nat (GetNumElementsDisk (GlGeomCone 50000 1 50000))) es)
         \<and> 0 \<in> set (RenderBase_elements (GlGeomCone 50000 1 50000) es)
         \<and> \<not> (0 < GetNumVerticesDisk (GlGeomCone 50000 1 50000)))"
proof -
  let ?A = "GlGeomCone 50000 1 50000"
  note p = layout_position_only_ok
  have d: "GetNumVerticesDisk ?A = - 1794967295" and e: "GetNumElementsDisk ?A = 2114948112"
    by (simp_all add: count_defs arith32_defs int32_def GlGeomCone_def)
  have r: "CalcVboAndEbo real_ops ?A layout_position_only
      = Inr (vbo_writes real_ops ?A layout_position_only, ebo_entries ?A layout_position_only)"
    by (simp add: CalcVboAndEbo_def stopSlices_def sub32_def int32_def p GlGeomCone_def)
  have "0 < numSlices ?A"
    by (simp add: GlGeomCone_def)
  from ebo_first_triangle [OF this, of layout_position_only] obtain rest
    where "ebo_entries ?A layout_position_only = 0 # 50001 # 1 # rest"
    by (auto simp: arith32_defs int32_def uint32_def GlGeomCone_def)
  then have t: "0 \<in> set (take (nat 2114948112) (ebo_entries ?A layout_position_only))"
    by simp
  then have "0 \<in> set (RenderBase_elements ?A (ebo_entries ?A layout_position_only))"
    by (simp add: RenderBase_elements_def drawn_elements_def e)
  with p(1) p(2) d e t show ?thesis
    unfolding r e d by simp
qed

text \<open>
  C10, amended. For every resolution in the clamped ranges and a buffer whose size is an
  \<open>int\<close>, the element buffer is partitioned by sub-mesh: the first \<open>GetNumElementsDisk\<close> entries, which \<open>RenderBase\<close>
  draws, are indices below \<open>GetNumVerticesDisk\<close>; the remaining \<open>GetNumElementsSide\<close>
  entries, which \<open>RenderSide\<close> draws, are indices from \<open>GetNumVerticesDisk\<close> up to the vertex
  count. The two draws share no vertex.
\<close>

theorem C10_index_regions:
  assumes "resolution_clamped c" and "0 \<le> vertPosOffset lay" and "buffer_fits c lay"
  shows "case CalcVboAndEbo ops c lay of
           Inl e \<Rightarrow> False
         | Inr (ws, es) \<Rightarrow>
             RenderBase_elements c es = take (nat (GetNumElementsDisk c)) es
           \<and> RenderSide_elements c es = drop (nat (GetNumElementsDisk c)) es
           \<and> length (take (nat (GetNumElementsDisk c)) es) = nat (GetNumElementsDisk c)
           \<and> length (drop (nat (GetNumElementsDisk c)) es) = nat (GetNumElementsSide c)
           \<and> list_all (\<lambda>x. 0 \<le> x \<and> x < GetNumVerticesDisk c)
                (take (nat (GetNumElementsDisk c)) es)
           \<and> list_all (\<lambda>x. GetNumVerticesDisk c \<le> x \<and> x < vertex_count c lay)
                (drop (nat (GetNumElementsDisk c)) es)
           \<and> set (RenderBase_elements c es) \<inter> set (RenderSide_elements c es) = {}"
proof -
  let ?es = "ebo_entries c lay"
  let ?d = "take (nat (GetNumElementsDisk c)) ?es"
  let ?s = "drop (nat (GetNumElementsDisk c)) ?es"
  note td = ebo_take_drop [OF assms(1), of lay]
  have ld: "length ?d = nat (GetNumElementsDisk c)"
    unfolding td by (rule length_disk_part [OF assms(1)])
  have ls: "length ?s = nat (GetNumElementsSide c)"
    unfolding td by (rule length_side_part [OF assms(1)])
  have d: "list_all (\<lambda>x. 0 \<le> x \<and> x < GetNumVerticesDisk c) ?d"
    unfolding td using disk_corners_range [OF assms(1)] by (auto simp: list_all_iff)
  have s: "list_all (\<lambda>x. GetNumVerticesDisk c \<le> x \<and> x < vertex_count c lay) ?s"
    unfolding td using side_corners_range [OF assms(1)] by (auto simp: list_all_iff)
  have rb: "RenderBase_elements c ?es = ?d"
    by (simp add: RenderBase_elements_def drawn_elements_def)
  have rs: "RenderSide_elements c ?es = ?s"
    using ls by (simp add: RenderSide_elements_def drawn_elements_def)
  have "set ?d \<inter> set ?s = {}"
  proof (rule ccontr)
    assume "set ?d \<inter> set ?s \<noteq> {}"
    then obtain x where "x \<in> set ?d" "x \<in> set ?s" by blast
    with d s have "x < GetNumVerticesDisk c" "GetNumVerticesDisk c \<le> x"
      by (simp_all add: list_all_iff)
    then show False by simp
  qed
  with ld ls d s rb rs show ?thesis
    unfolding CalcVboAndEbo_fits [OF assms] by simp
qed

theorem C10_index_regions_witness:
  "resolution_clamped (GlGeomCone 3 1 1)
   \<and> 0 \<le> vertPosOffset layout_position_only
   \<and> buffer_fits (GlGeomCone 3 1 1) layout_position_only
   \<and> GetNumVerticesDisk (GlGeomCone 3 1 1) = 4
   \<and> (case CalcVboAndEbo real_ops (GlGeomCone 3 1 1) layout_position_only of
         Inl e \<Rightarrow> False
       | Inr (ws, es) \<Rightarrow>
           RenderBase_elements (GlGeomCone 3 1 1) es = [0, 2, 1, 0, 3, 2, 0, 1, 3]
         \<and> RenderSide_elements (GlGeomCone 3 1 1) es = [6, 5, 4, 8, 7, 6, 4, 9, 8]
         \<and> set (RenderBase_elements (GlGeomCone 3 1 1) es)
             \<inter> set (RenderSide_elements (GlGeomCone 3 1 1) es) = {})"
proof -
  note cl = clamped_311
  note p = layout_position_only_ok
  note s = fits_311(2)
  have n: "GetNumVerticesDisk (GlGeomCone 3 1 1) = 4" "GetNumElementsDisk (GlGeomCone 3 1 1) = 9"
    by (simp_all add: count_defs arith32_defs int32_def GlGeomCone_def)
  have e: "ebo_entries (GlGeomCone 3 1 1) layout_position_only
      = [0, 2, 1, 0, 3, 2, 0, 1, 3, 6, 5, 4, 8, 7, 6, 4, 9, 8]"
    unfolding ebo_entries_exact [OF cl]
    by (simp add: disk_part_def side_part_def disk_triangles_def side_triangles_def
        ring_record_def side_record_def right_slice_def GlGeomCone_def layout_position_only_def
        upto_rec1)
  from C10_index_regions [OF cl p(1) s, of real_ops]
  have "case CalcVboAndEbo real_ops (GlGeomCone 3 1 1) layout_position_only of
         Inl e \<Rightarrow> False
       | Inr (ws, es) \<Rightarrow>
           RenderBase_elements (GlGeomCone 3 1 1) es = [0, 2, 1, 0, 3, 2, 0, 1, 3]
         \<and> RenderSide_elements (GlGeomCone 3 1 1) es = [6, 5, 4, 8, 7, 6, 4, 9, 8]
         \<and> set (RenderBase_elements (GlGeomCone 3 1 1) es)
             \<inter> set (RenderSide_elements (GlGeomCone 3 1 1) es) = {}"
    unfolding CalcVboAndEbo_fits [OF cl p(1) s] n by (simp add: e)
  with cl p(1) s n show ?thesis by simp
qed




text \<open>
  C8 as stated holds whenever \<open>CalcVboAndEbo\<close> runs with texture coordinates. The record
  of a side vertex is computed in \<open>int\<close> as \<open>GetNumVerticesDisk() + i * (numStacks + 1)\<close>. For
  \<open>GlGeomCone(65536, 65535, 1)\<close>, which the constructor accepts, the product for the seam
  index \<open>i = 65536\<close> is \<open>2^32\<close> and wraps to 0: the side vertices of slice 0 and of slice
  index 65536 are written through the same pointer, so they do not occupy different
  records.
\<close>

theorem C8_counterexample:
  "0 \<le> vertPosOffset layout_interleaved \<and> 0 < stride_arg layout_interleaved
   \<and> 0 \<le> vertTexCoordsOffset layout_interleaved
   \<and> (case CalcVboAndEbo real_ops (GlGeomCone 65536 65535 1) layout_interleaved of
         Inl e \<Rightarrow> False
       | Inr (ws, es) \<Rightarrow>
           (Side 0 0, 524296) \<in> set (vertex_origins ws)
         \<and> (Side 65536 0, 524296) \<in> set (vertex_origins ws))"
proof -
  let ?A = "GlGeomCone 65536 65535 1"
  note l = layout_interleaved_ok
  have s: "0 < stride_arg layout_interleaved"
    by (simp add: l)
  have t: "stopSlices ?A layout_interleaved = 65536"
    by (simp add: stopSlices_def GlGeomCone_def layout_interleaved_def)
  have r: "CalcVboAndEbo real_ops ?A layout_interleaved
      = Inr (vbo_writes real_ops ?A layout_interleaved, ebo_entries ?A layout_interleaved)"
    unfolding CalcVboAndEbo_def t using l(1) s by (simp add: GlGeomCone_def)
  have q: "side_pointer ?A layout_interleaved 0 0 = 524296"
    "side_pointer ?A layout_interleaved 65536 0 = 524296"
    by (simp_all add: side_pointer_def l count_defs arith32_defs int32_def uint32_def
        GlGeomCone_def)
  have k: "0 < numStacks ?A"
    by (simp add: GlGeomCone_def)
  have "(Side 0 0, 524296) \<in> set (vertex_origins (vbo_writes real_ops ?A layout_interleaved))"
    "(Side 65536 0, 524296) \<in> set (vertex_origins (vbo_writes real_ops ?A layout_interleaved))"
    unfolding mem_pointers_Side t q using k by simp_all
  with l(1) s l(3) show ?thesis
    unfolding r by simp
qed

text \<open>
  C8, amended. For a resolution in the clamped ranges and a buffer whose size is an \<open>int\<close>,
  with texture coordinates enabled: for every stack \<open>j\<close> the side vertices of slice 0 and
  of slice index \<open>slices\<close> are written to two different records with the same three
  position values; their texture s-coordinates are the quotients \<open>0 / slices\<close> and
  \<open>slices / slices\<close>, which are 0 and 1 in every arithmetic that divides these exactly (IEEE
  division does, being correctly rounded). Under a layout whose attributes lie inside the
  stride without overlap, the same holds of the buffer contents.
\<close>

theorem C8_seam_side_vertices:
  assumes cl: "resolution_clamped c" and pos: "0 \<le> vertPosOffset lay"
    and fits: "buffer_fits c lay"
    and tex: "0 \<le> vertTexCoordsOffset lay"
    and j: "0 \<le> j" "j < numStacks c"
    and zero: "f_div ops (f_of_int ops 0) (f_of_int ops (numSlices c)) = f_lit ops 0"
    and one: "f_div ops (f_of_int ops (numSlices c)) (f_of_int ops (numSlices c)) = f_lit ops 1"
  shows "case CalcVboAndEbo ops c lay of
           Inl e \<Rightarrow> False
         | Inr (ws, es) \<Rightarrow>
            (let v0 = record_start lay (side_record c 0 j);
                 vS = record_start lay (side_record c (numSlices c) j)
             in (Side 0 j, v0) \<in> set (vertex_origins ws)
              \<and> (Side (numSlices c) j, vS) \<in> set (vertex_origins ws)
              \<and> v0 \<noteq> vS
              \<and> (\<exists>x y z.
                    (Side 0 j, (v0, Position, 0), x) \<in> set ws
                  \<and> (Side (numSlices c) j, (vS, Position, 0), x) \<in> set ws
                  \<and> (Side 0 j, (v0, Position, 1), y) \<in> set ws
                  \<and> (Side (numSlices c) j, (vS, Position, 1), y) \<in> set ws
                  \<and> (Side 0 j, (v0, Position, 2), z) \<in> set ws
                  \<and> (Side (numSlices c) j, (vS, Position, 2), z) \<in> set ws)
              \<and> (Side 0 j, (v0, TexCoords, 0), f_lit ops 0) \<in> set ws
              \<and> (Side (numSlices c) j, (vS, TexCoords, 0), f_lit ops 1) \<in> set ws
              \<and> (attribs_within_stride lay \<and> attribs_disjoint lay \<longrightarrow>
                    read_floats lay ws v0 Position [0, 1, 2] = read_floats lay ws vS Position [0, 1, 2]
                  \<and> None \<notin> set (read_floats lay ws v0 Position [0, 1, 2])
                  \<and> float_index lay (v0, Position, 0) \<noteq> float_index lay (vS, Position, 0)
                  \<and> read_floats lay ws v0 TexCoords [0] = [Some (f_lit ops 0)]
                  \<and> read_floats lay ws vS TexCoords [0] = [Some (f_lit ops 1)]))"
proof -
  let ?ws = "vbo_writes ops c lay"
  define S where "S = numSlices c"
  define v0 where "v0 = record_start lay (side_record c 0 j)"
  define vS where "vS = record_start lay (side_record c S j)"
  from cl have S: "3 \<le> S" and K: "1 \<le> numStacks c"
    by (simp_all add: resolution_clamped_def S_def)
  have T: "stopSlices c lay = S" using tex by (simp add: stopSlices_clamped [OF cl] S_def)
  have th: "slice_theta ops c S = slice_theta ops c 0"
    unfolding S_def using S by (intro slice_theta_seam) (simp add: S_def)
  have "0 < S * (numStacks c + 1)" using S K by simp
  moreover have "side_record c S j = side_record c 0 j + S * (numStacks c + 1)"
    by (simp add: side_record_def)
  ultimately have "side_record c 0 j \<noteq> side_record c S j"
    by linarith
  with inj_record_start [OF cl fits] have ne: "v0 \<noteq> vS"
    unfolding v0_def vS_def by (auto dest: injD)
  have p0: "side_pointer c lay 0 j = v0" and pS: "side_pointer c lay S j = vS"
    unfolding v0_def vS_def using j S T by (simp_all add: side_pointer_written [OF cl fits])
  have o0: "(Side 0 j, v0) \<in> set (vertex_origins ?ws)"
    and oS: "(Side S j, vS) \<in> set (vertex_origins ?ws)"
    using j S T by (simp_all add: mem_pointers_Side p0 pS)
  define x where "x = f_mul ops (f_neg ops (f_sin ops (slice_theta ops c 0)))
        (f_sub ops (f_lit ops 1) (f_div ops (f_of_int ops j) (f_of_int ops (numStacks c))))"
  define y where "y = f_div ops (f_of_int ops j) (f_of_int ops (numStacks c))"
  define z where "z = f_mul ops (f_neg ops (f_cos ops (slice_theta ops c 0)))
        (f_sub ops (f_lit ops 1) (f_div ops (f_of_int ops j) (f_of_int ops (numStacks c))))"
  have w0: "(Side 0 j, (v0, Position, 0), x) \<in> set ?ws"
      "(Side 0 j, (v0, Position, 1), y) \<in> set ?ws"
      "(Side 0 j, (v0, Position, 2), z) \<in> set ?ws"
      "(Side 0 j, (v0, TexCoords, 0), f_lit ops 0) \<in> set ?ws"
    using side_block_writes [where c = c and i = 0 and j = j and ops = ops and lay = lay] j S T tex zero
    by (simp_all add: mem_vbo_Side p0 x_def y_def z_def S_def)
  have wS: "(Side S j, (vS, Position, 0), x) \<in> set ?ws"
      "(Side S j, (vS, Position, 1), y) \<in> set ?ws"
      "(Side S j, (vS, Position, 2), z) \<in> set ?ws"
      "(Side S j, (vS, TexCoords, 0), f_lit ops 1) \<in> set ?ws"
    using side_block_writes [where c = c and i = S and j = j and ops = ops and lay = lay] j S T tex one th
    by (simp_all add: mem_vbo_Side pS [unfolded S_def] x_def y_def z_def S_def)
  have mem: "read_floats lay ?ws v0 Position [0, 1, 2] = read_floats lay ?ws vS Position [0, 1, 2]
      \<and> None \<notin> set (read_floats lay ?ws v0 Position [0, 1, 2])
      \<and> float_index lay (v0, Position, 0) \<noteq> float_index lay (vS, Position, 0)
      \<and> read_floats lay ?ws v0 TexCoords [0] = [Some (f_lit ops 0)]
      \<and> read_floats lay ?ws vS TexCoords [0] = [Some (f_lit ops 1)]"
    if fit: "attribs_within_stride lay" and dis: "attribs_disjoint lay"
  proof -
    note r = vbo_memory_written [OF cl fits fit dis]
    have r0: "read_floats lay ?ws v0 Position [0, 1, 2] = [Some x, Some y, Some z]"
      by (rule read_position_written [OF cl fits fit dis w0(1-3)])
    have rS: "read_floats lay ?ws vS Position [0, 1, 2] = [Some x, Some y, Some z]"
      by (rule read_position_written [OF cl fits fit dis wS(1-3)])
    have t0: "read_floats lay ?ws v0 TexCoords [0] = [Some (f_lit ops 0)]"
      using r [OF w0(4)] by (simp add: read_floats_def)
    have tS: "read_floats lay ?ws vS TexCoords [0] = [Some (f_lit ops 1)]"
      using r [OF wS(4)] by (simp add: read_floats_def)
    have "(Position, 0) \<in> set (enabled_components lay)"
      by (simp add: enabled_components_def)
    then have m: "(v0, Position, 0) \<in> range (record_start lay) \<times> set (enabled_components lay)"
        "(vS, Position, 0) \<in> range (record_start lay) \<times> set (enabled_components lay)"
      by (simp_all add: v0_def vS_def)
    have "float_index lay (v0, Position, 0) \<noteq> float_index lay (vS, Position, 0)"
    proof
      assume "float_index lay (v0, Position, 0) = float_index lay (vS, Position, 0)"
      from inj_onD [OF float_index_inj [OF fit dis] this m] ne show False by simp
    qed
    with r0 rS t0 tS show ?thesis by simp
  qed
  from o0 oS ne w0 wS mem show ?thesis
    unfolding CalcVboAndEbo_fits [OF cl pos fits] Let_def
    by (fold S_def, fold v0_def vS_def) (simp, blast)
qed

theorem C8_seam_side_vertices_witness:
  "resolution_clamped (GlGeomCone 3 1 1)
   \<and> 0 \<le> vertPosOffset layout_interleaved \<and> buffer_fits (GlGeomCone 3 1 1) layout_interleaved
   \<and> 0 \<le> vertTexCoordsOffset layout_interleaved
   \<and> attribs_within_stride layout_interleaved \<and> attribs_disjoint layout_interleaved
   \<and> f_div real_ops (f_of_int real_ops 0) (f_of_int real_ops 3) = f_lit real_ops 0
   \<and> f_div real_ops (f_of_int real_ops 3) (f_of_int real_ops 3) = f_lit real_ops 1
   \<and> (case CalcVboAndEbo real_ops (GlGeomCone 3 1 1) layout_interleaved of
         Inl e \<Rightarrow> False
       | Inr (ws, es) \<Rightarrow>
           (Side 0 0, 32) \<in> set (vertex_origins ws) \<and> (Side 3 0, 80) \<in> set (vertex_origins ws)
         \<and> read_floats layout_interleaved ws 32 Position [0, 1, 2]
             = read_floats layout_interleaved ws 80 Position [0, 1, 2]
         \<and> None \<notin> set (read_floats layout_interleaved ws 32 Position [0, 1, 2])
         \<and> read_floats layout_interleaved ws 32 TexCoords [0] = [Some 0]
         \<and> read_floats layout_interleaved ws 80 TexCoords [0] = [Some 1])"
proof -
  note l = layout_interleaved_ok
  note cl = clamped_311 and f = fits_311(1)
  let ?ws = "vbo_writes real_ops (GlGeomCone 3 1 1) layout_interleaved"
  have z: "f_div real_ops (f_of_int real_ops 0) (f_of_int real_ops (numSlices (GlGeomCone 3 1 1)))
      = f_lit real_ops 0"
    and o: "f_div real_ops (f_of_int real_ops (numSlices (GlGeomCone 3 1 1)))
        (f_of_int real_ops (numSlices (GlGeomCone 3 1 1))) = f_lit real_ops 1"
    by (simp_all add: real_ops_def GlGeomCone_def)
  have j: "(0::int) \<le> 0" "0 < numStacks (GlGeomCone 3 1 1)"
    by (simp_all add: GlGeomCone_def)
  have n: "numSlices (GlGeomCone 3 1 1) = 3"
    by (simp add: GlGeomCone_def)
  have v: "record_start layout_interleaved (side_record (GlGeomCone 3 1 1) 0 0) = 32"
    "record_start layout_interleaved (side_record (GlGeomCone 3 1 1) 3 0) = 80"
    by (simp_all add: record_start_def l side_record_def GlGeomCone_def)
  have lit: "f_lit real_ops 0 = 0" "f_lit real_ops 1 = 1"
    by (simp_all add: real_ops_def)
  from C8_seam_side_vertices [OF cl l(1) f l(3) j z o] l(4,5)
  have "(Side 0 0, 32) \<in> set (vertex_origins ?ws) \<and> (Side 3 0, 80) \<in> set (vertex_origins ?ws)
         \<and> read_floats layout_interleaved ?ws 32 Position [0, 1, 2]
             = read_floats layout_interleaved ?ws 80 Position [0, 1, 2]
         \<and> None \<notin> set (read_floats layout_interleaved ?ws 32 Position [0, 1, 2])
         \<and> read_floats layout_interleaved ?ws 32 TexCoords [0] = [Some 0]
         \<and> read_floats layout_interleaved ?ws 80 TexCoords [0] = [Some 1]"
    unfolding CalcVboAndEbo_fits [OF cl l(1) f] n v by (auto simp: lit)
  with cl l f z o show ?thesis
    unfolding CalcVboAndEbo_fits [OF cl l(1) f] by (auto simp: n)
qed

text \<open>
  C9 as stated holds for every valid resolution. The record of the apex of slice \<open>i\<close> is
  \<open>GetNumVerticesDisk() + i * (numStacks + 1)\<close>, computed in \<open>int\<close>, plus \<open>numStacks\<close>. For
  the valid \<open>GlGeomCone(65537, 65535, 1)\<close> the product for slice 65536 is \<open>2^32\<close> and wraps
  to 0, so the apex vertices of slice 0 and of slice 65536 are written through the same
  pointer: the buffer holds fewer than \<open>slices\<close> apex vertices.
\<close>

theorem C9_counterexample:
  "valid_resolution (GlGeomCone 65537 65535 1)
   \<and> 0 \<le> vertPosOffset layout_position_only \<and> 0 < stride_arg layout_position_only
   \<and> (case CalcVboAndEbo real_ops (GlGeomCone 65537 65535 1) layout_position_only of
         Inl e \<Rightarrow> False
       | Inr (ws, es) \<Rightarrow>
           (Apex 0, 393219) \<in> set (vertex_origins ws)
         \<and> (Apex 65536, 393219) \<in> set (vertex_origins ws))"
proof -
  let ?A = "GlGeomCone 65537 65535 1"
  note p = layout_position_only_ok
  have v: "valid_resolution ?A"
    by (simp add: valid_resolution_def GlGeomCone_def)
  have s: "0 < stride_arg layout_position_only"
    by (simp add: p)
  have t: "stopSlices ?A layout_position_only = 65536"
    by (simp add: stopSlices_def sub32_def int32_def GlGeomCone_def layout_position_only_def)
  have r: "CalcVboAndEbo real_ops ?A layout_position_only
      = Inr (vbo_writes real_ops ?A layout_position_only, ebo_entries ?A layout_position_only)"
    unfolding CalcVboAndEbo_def t using p(1) s by (simp add: GlGeomCone_def)
  have k: "max 0 (numStacks ?A) = 65535" "numSlices ?A = 65537"
    by (simp_all add: GlGeomCone_def)
  have q: "side_pointer ?A layout_position_only 0 65535 = 393219"
    "side_pointer ?A layout_position_only 65536 65535 = 393219"
    by (simp_all add: side_pointer_def p count_defs arith32_defs int32_def uint32_def
        GlGeomCone_def)
  have "(Apex 0, 393219) \<in> set (vertex_origins (vbo_writes real_ops ?A layout_position_only))"
    "(Apex 65536, 393219) \<in> set (vertex_origins (vbo_writes real_ops ?A layout_position_only))"
    unfolding mem_pointers_Apex t k q by simp_all
  with v p(1) s show ?thesis
    unfolding r by simp
qed

text \<open>
  C9, amended. For every resolution in the clamped ranges and a buffer whose size is an
  \<open>int\<close>, the apex block runs once for each slice \<open>0 .. slices - 1\<close>, so exactly \<open>slices\<close>
  apex vertices are written, to different records, and each gets the position \<open>(0, 1, 0)\<close>:
  the three literals of lines 95-97, whatever the float arithmetic.
\<close>

theorem C9_apex_vertices:
  assumes "resolution_clamped c" and "0 \<le> vertPosOffset lay" and "buffer_fits c lay"
  shows "case CalcVboAndEbo ops c lay of
           Inl e \<Rightarrow> False
         | Inr (ws, es) \<Rightarrow>
             filter (\<lambda>p. is_apex (fst p)) (vertex_origins ws)
               = map (\<lambda>i. (Apex i, record_start lay (side_record c i (numStacks c))))
                   [0..numSlices c - 1]
           \<and> length (filter (\<lambda>p. is_apex (fst p)) (vertex_origins ws)) = nat (numSlices c)
           \<and> distinct (map snd (filter (\<lambda>p. is_apex (fst p)) (vertex_origins ws)))
           \<and> list_all (\<lambda>(orig, v).
                  (orig, (v, Position, 0), f_lit ops 0) \<in> set ws
                \<and> (orig, (v, Position, 1), f_lit ops 1) \<in> set ws
                \<and> (orig, (v, Position, 2), f_lit ops 0) \<in> set ws
                \<and> (attribs_within_stride lay \<and> attribs_disjoint lay \<longrightarrow>
                     read_floats lay ws v Position [0, 1, 2]
                       = [Some (f_lit ops 0), Some (f_lit ops 1), Some (f_lit ops 0)]))
               (filter (\<lambda>p. is_apex (fst p)) (vertex_origins ws))"
proof -
  let ?ws = "vbo_writes ops c lay"
  let ?ap = "filter (\<lambda>p. is_apex (fst p)) (vertex_origins ?ws)"
  note a = apex_origins_vbo [OF assms(1,3), of ops]
  have b: "length ?ap = nat (numSlices c)"
    unfolding a by simp
  have "distinct (map snd (vertex_origins ?ws))"
    using distinct_written_vertices_vbo [OF assms(1,3), of ops]
    by (simp add: written_vertices_origins)
  then have d: "distinct (map snd ?ap)"
    by (rule distinct_map_filter)
  have e: "list_all (\<lambda>(orig, v).
                  (orig, (v, Position, 0), f_lit ops 0) \<in> set ?ws
                \<and> (orig, (v, Position, 1), f_lit ops 1) \<in> set ?ws
                \<and> (orig, (v, Position, 2), f_lit ops 0) \<in> set ?ws
                \<and> (attribs_within_stride lay \<and> attribs_disjoint lay \<longrightarrow>
                     read_floats lay ?ws v Position [0, 1, 2]
                       = [Some (f_lit ops 0), Some (f_lit ops 1), Some (f_lit ops 0)])) ?ap"
    unfolding list_all_iff
  proof (intro ballI, clarify)
    fix orig v
    assume p: "(orig, v) \<in> set ?ap"
    note w = apex_positions_written [OF assms(1) p]
    show "(orig, (v, Position, 0), f_lit ops 0) \<in> set ?ws
        \<and> (orig, (v, Position, 1), f_lit ops 1) \<in> set ?ws
        \<and> (orig, (v, Position, 2), f_lit ops 0) \<in> set ?ws
        \<and> (attribs_within_stride lay \<and> attribs_disjoint lay \<longrightarrow>
             read_floats lay ?ws v Position [0, 1, 2]
               = [Some (f_lit ops 0), Some (f_lit ops 1), Some (f_lit ops 0)])"
      using w read_position_written [OF assms(1,3) _ _ w [THEN conjunct1]
          w [THEN conjunct2, THEN conjunct1] w [THEN conjunct2, THEN conjunct2]]
      by blast
  qed
  from a b d e show ?thesis
    unfolding CalcVboAndEbo_fits [OF assms] by simp
qed

theorem C9_apex_vertices_witness:
  "resolution_clamped (GlGeomCone 3 1 1)
   \<and> 0 \<le> vertPosOffset layout_interleaved \<and> buffer_fits (GlGeomCone 3 1 1) layout_interleaved
   \<and> attribs_within_stride layout_interleaved \<and> attribs_disjoint layout_interleaved
   \<and> (case CalcVboAndEbo real_ops (GlGeomCone 3 1 1) layout_interleaved of
         Inl e \<Rightarrow> False
       | Inr (ws, es) \<Rightarrow>
           filter (\<lambda>p. is_apex (fst p)) (vertex_origins ws) = [(Apex 0, 40), (Apex 1, 56), (Apex 2, 72)]
         \<and> read_floats layout_interleaved ws 40 Position [0, 1, 2] = [Some 0, Some 1, Some 0]
         \<and> read_floats layout_interleaved ws 56 Position [0, 1, 2] = [Some 0, Some 1, Some 0]
         \<and> read_floats layout_interleaved ws 72 Position [0, 1, 2] = [Some 0, Some 1, Some 0])"
proof -
  note l = layout_interleaved_ok
  note cl = clamped_311 and f = fits_311(1)
  let ?ws = "vbo_writes real_ops (GlGeomCone 3 1 1) layout_interleaved"
  have n: "numSlices (GlGeomCone 3 1 1) = 3" "numStacks (GlGeomCone 3 1 1) = 1"
    by (simp_all add: GlGeomCone_def)
  have v: "map (\<lambda>i. (Apex i, record_start layout_interleaved (side_record (GlGeomCone 3 1 1) i 1)))
        [0..3 - 1] = [(Apex 0, 40), (Apex 1, 56), (Apex 2, 72)]"
    by (simp add: record_start_def l side_record_def GlGeomCone_def upto_rec1)
  have lit: "f_lit real_ops 0 = 0" "f_lit real_ops 1 = 1"
    by (simp_all add: real_ops_def)
  have ap: "filter (\<lambda>p. is_apex (fst p)) (vertex_origins ?ws)
      = [(Apex 0, 40), (Apex 1, 56), (Apex 2, 72)]"
    unfolding apex_origins_vbo [OF cl f] n v ..
  from C9_apex_vertices [OF cl l(1) f, of real_ops] l(4,5)
  have "read_floats layout_interleaved ?ws 40 Position [0, 1, 2] = [Some 0, Some 1, Some 0]
      \<and> read_floats layout_interleaved ?ws 56 Position [0, 1, 2] = [Some 0, Some 1, Some 0]
      \<and> read_floats layout_interleaved ?ws 72 Position [0, 1, 2] = [Some 0, Some 1, Some 0]"
    unfolding CalcVboAndEbo_fits [OF cl l(1) f] by (simp add: ap lit)
  with ap cl l f show ?thesis
    unfolding CalcVboAndEbo_fits [OF cl l(1) f] by simp
qed


end
